theory Spec2Isabelle
  imports Main "HOL-Library.List_Lexorder" "HOL-Library.Sublist" "HOL-Library.Multiset"
begin

section \<open>Python values used by \<^verbatim>\<open>extract_docx.py\<close>\<close>

text \<open>
  A Python \<^verbatim>\<open>str\<close> is a sequence of Unicode code points, so it is modelled as a list
  of natural numbers. \<open>py\<close> embeds an ASCII literal of the source.
\<close>

type_synonym pystr = "nat list"

definition py :: "string \<Rightarrow> pystr" where
  "py s = map of_char s"

text \<open>
  \<^verbatim>\<open>str.strip()\<close> with no argument removes leading and trailing whitespace; the
  whitespace code points are those of CPython's \<^verbatim>\<open>_PyUnicode_IsWhitespace\<close>.
\<close>

definition isspace :: "nat \<Rightarrow> bool" where
  "isspace c \<longleftrightarrow>
     (9 \<le> c \<and> c \<le> 13) \<or> (28 \<le> c \<and> c \<le> 32) \<or> c = 133 \<or> c = 160 \<or> c = 5760 \<or>
     (8192 \<le> c \<and> c \<le> 8202) \<or> c = 8232 \<or> c = 8233 \<or> c = 8239 \<or> c = 8287 \<or> c = 12288"

definition str_strip :: "pystr \<Rightarrow> pystr" where
  "str_strip s = rev (dropWhile isspace (rev (dropWhile isspace s)))"

abbreviation NL :: pystr where
  "NL \<equiv> [10]"

text \<open>\<^verbatim>\<open>sep.join(xs)\<close>.\<close>

fun str_join :: "pystr \<Rightarrow> pystr list \<Rightarrow> pystr" where
  "str_join sep [] = []"
| "str_join sep [x] = x"
| "str_join sep (x # y # ys) = x @ sep @ str_join sep (y # ys)"

text \<open>
  \<^verbatim>\<open>str.lower()\<close>. ASCII capitals are lowered; the two code points outside ASCII whose
  lower case contains an ASCII letter (U+0130 and the Kelvin sign U+212A) are mapped as
  Unicode does. Every other code point outside ASCII is kept: Unicode lowers it to code
  points outside ASCII again, so whether the result equals an ASCII key of \<open>READERS\<close>
  is the same as in Python.
\<close>

definition lower_cp :: "nat \<Rightarrow> pystr" where
  "lower_cp c =
     (if 65 \<le> c \<and> c \<le> 90 then [c + 32]
      else if c = 304 then [105, 775]
      else if c = 8490 then [107]
      else [c])"

definition str_lower :: "pystr \<Rightarrow> pystr" where
  "str_lower s = concat (map lower_cp s)"

text \<open>\<^verbatim>\<open>str(n)\<close> for a non-negative integer: its decimal digits.\<close>

function str_nat :: "nat \<Rightarrow> pystr" where
  "str_nat n = (if n < 10 then [48 + n] else str_nat (n div 10) @ [48 + n mod 10])"
  by pat_completeness auto
termination
  by (relation "measure id") auto

declare str_nat.simps [simp del]

text \<open>\<^verbatim>\<open>s.split("\n")\<close>: the lines of a text.\<close>

fun split_nl :: "pystr \<Rightarrow> pystr list" where
  "split_nl [] = [[]]"
| "split_nl (c # cs) =
     (if c = 10 then [] # split_nl cs
      else (case split_nl cs of [] \<Rightarrow> [[c]] | l # ls \<Rightarrow> (c # l) # ls))"

text \<open>
  An exception object: its class name, its message and its \<^verbatim>\<open>__cause__\<close> (set by
  \<^verbatim>\<open>raise ... from exc\<close>). Every exception of the model is an instance of
  \<^verbatim>\<open>Exception\<close> except \<^verbatim>\<open>SystemExit\<close>, which only \<open>main\<close> raises.
\<close>

datatype exn = Exn (exn_class: string) (exn_msg: pystr) (exn_cause: "exn option")

subsection \<open>Paths and the file system\<close>

text \<open>
  A \<^verbatim>\<open>pathlib.Path\<close> is the list of its parts. \<^verbatim>\<open>Path.name\<close> is the last part,
  \<^verbatim>\<open>Path.suffix\<close> is computed from the name as pathlib does:
  \<^verbatim>\<open>i = name.rfind('.'); name[i:] if 0 < i < len(name) - 1 else ''\<close>.
\<close>

type_synonym path = "pystr list"

definition Path_name :: "path \<Rightarrow> pystr" where
  "Path_name p = (if p = [] then [] else last p)"

text \<open>
  \<^verbatim>\<open>str(path)\<close>: the parts joined with \<^verbatim>\<open>/\<close>; the root \<^verbatim>\<open>/\<close> of an absolute path is its
  first part and is not followed by a second slash; the empty path prints as \<^verbatim>\<open>.\<close>.
\<close>

definition Path_str :: "path \<Rightarrow> pystr" where
  "Path_str p =
     (case p of
        [] \<Rightarrow> py ''.''
      | root # rest \<Rightarrow>
          if root = py ''/'' then root @ str_join (py ''/'') rest else str_join (py ''/'') p)"

definition str_rfind :: "nat \<Rightarrow> pystr \<Rightarrow> int" where
  "str_rfind c s =
     (case filter (\<lambda>i. s ! i = c) (rev [0..<length s]) of
        [] \<Rightarrow> - 1
      | i # _ \<Rightarrow> int i)"

definition Path_suffix :: "path \<Rightarrow> pystr" where
  "Path_suffix p =
     (let name = Path_name p; i = str_rfind 46 name
      in if 0 < i \<and> i < int (length name) - 1 then drop (nat i) name else [])"

text \<open>
  A file system entry is a directory, a regular file with its bytes, or a file whose
  opening fails with the given \<^verbatim>\<open>OSError\<close>.
\<close>

datatype node = Directory | RegularFile "nat list" | UnreadableFile exn

subsection \<open>Documents as the parsing libraries present them\<close>

text \<open>
  python-docx: the body of a document is a sequence of top-level blocks in document
  order. \<^verbatim>\<open>document.paragraphs\<close> lists the top-level paragraphs and
  \<^verbatim>\<open>document.tables\<close> the top-level tables, each in document order. A paragraph is
  given by its \<^verbatim>\<open>text\<close>, a table by its rows, a row by the \<^verbatim>\<open>text\<close> of its cells.
\<close>

datatype block = Paragraph pystr | Table "pystr list list"

type_synonym docx_document = "block list"

fun paragraphs :: "docx_document \<Rightarrow> pystr list" where
  "paragraphs [] = []"
| "paragraphs (Paragraph t # bs) = t # paragraphs bs"
| "paragraphs (Table rs # bs) = paragraphs bs"

fun tables :: "docx_document \<Rightarrow> pystr list list list" where
  "tables [] = []"
| "tables (Paragraph t # bs) = tables bs"
| "tables (Table rs # bs) = rs # tables bs"

text \<open>
  pypdf / PyPDF2: a reader has pages; \<^verbatim>\<open>page.extract_text()\<close> raises, or returns
  \<^verbatim>\<open>None\<close> or a string.
\<close>

type_synonym pdf_reader = "(exn + pystr option) list"

text \<open>
  python-pptx: a presentation is its slides, a slide its shapes. A shape either has no
  \<^verbatim>\<open>text\<close> attribute, or has one whose value is \<^verbatim>\<open>None\<close> or a string.
\<close>

datatype shape = ShapeNoText | ShapeText "pystr option"

type_synonym presentation = "shape list list"

text \<open>
  The world a run sees: which optional packages can be imported, what each library
  constructor does on a path (raise, or return the parsed document), and the file
  system as an association list from paths to entries.
\<close>

record world =
  has_docx :: bool
  has_pypdf :: bool
  has_PyPDF2 :: bool
  has_pptx :: bool
  Document :: "path \<Rightarrow> exn + docx_document"
  PdfReader_pypdf :: "path \<Rightarrow> exn + pdf_reader"
  PdfReader_PyPDF2 :: "path \<Rightarrow> exn + pdf_reader"
  Presentation :: "path \<Rightarrow> exn + presentation"
  fs :: "(path \<times> node) list"

definition Path_exists :: "world \<Rightarrow> path \<Rightarrow> bool" where
  "Path_exists w p = (map_of (fs w) p \<noteq> None)"

definition Path_is_dir :: "world \<Rightarrow> path \<Rightarrow> bool" where
  "Path_is_dir w p = (map_of (fs w) p = Some Directory)"

text \<open>\<^verbatim>\<open>d.glob("*")\<close>: the direct entries of \<open>d\<close>, in the order the system lists them.\<close>

definition Path_glob_star :: "world \<Rightarrow> path \<Rightarrow> path list" where
  "Path_glob_star w d = filter (\<lambda>p. p \<noteq> [] \<and> butlast p = d) (map fst (fs w))"

subsection \<open>Reading text files\<close>

text \<open>
  \<^verbatim>\<open>Path.read_text(encoding="utf-8", errors=...)\<close> opens the file in text mode, decodes
  its bytes as UTF-8 and translates newlines. The decoder follows CPython's: a byte
  sequence is rejected when it has an invalid start byte, an invalid continuation byte
  (over-long forms, surrogates and code points above U+10FFFF are rejected at the second
  byte) or ends inside a sequence. With \<^verbatim>\<open>errors="strict"\<close> (the default) the first such
  place raises \<^verbatim>\<open>UnicodeDecodeError\<close>; with \<^verbatim>\<open>errors="ignore"\<close> the bytes of the
  rejected range are skipped and decoding goes on behind them. The message of the
  modelled exception is its \<^verbatim>\<open>reason\<close> alone, without the byte and position that
  \<^verbatim>\<open>str(exc)\<close> adds.
\<close>

datatype errors_mode = Strict | Ignore

definition is_cont :: "nat \<Rightarrow> bool" where
  "is_cont b \<longleftrightarrow> 128 \<le> b \<and> b < 192"

definition second_ok :: "nat \<Rightarrow> nat \<Rightarrow> bool" where
  "second_ok b0 b1 \<longleftrightarrow>
     is_cont b1 \<and> \<not> (b0 = 224 \<and> b1 < 160) \<and> \<not> (b0 = 237 \<and> 160 \<le> b1) \<and>
     \<not> (b0 = 240 \<and> b1 < 144) \<and> \<not> (b0 = 244 \<and> 144 \<le> b1)"

fun decode_error :: "errors_mode \<Rightarrow> string \<Rightarrow> exn + pystr \<Rightarrow> exn + pystr" where
  "decode_error Strict reason rest = Inl (Exn ''UnicodeDecodeError'' (py reason) None)"
| "decode_error Ignore reason rest = rest"

fun emit :: "nat \<Rightarrow> exn + pystr \<Rightarrow> exn + pystr" where
  "emit c (Inl e) = Inl e"
| "emit c (Inr cs) = Inr (c # cs)"

fun utf8_decode :: "errors_mode \<Rightarrow> nat list \<Rightarrow> exn + pystr" where
  "utf8_decode m [] = Inr []"
| "utf8_decode m (b0 # bs) =
     (if b0 < 128 then emit b0 (utf8_decode m bs)
      else if 194 \<le> b0 \<and> b0 < 224 then
        (case bs of
           [] \<Rightarrow> decode_error m ''unexpected end of data'' (Inr [])
         | b1 # bs1 \<Rightarrow>
             if is_cont b1 then emit ((b0 - 192) * 64 + (b1 - 128)) (utf8_decode m bs1)
             else decode_error m ''invalid continuation byte'' (utf8_decode m bs))
      else if 224 \<le> b0 \<and> b0 < 240 then
        (case bs of
           [] \<Rightarrow> decode_error m ''unexpected end of data'' (Inr [])
         | b1 # bs1 \<Rightarrow>
             if \<not> second_ok b0 b1
             then decode_error m ''invalid continuation byte'' (utf8_decode m bs)
             else
               (case bs1 of
                  [] \<Rightarrow> decode_error m ''unexpected end of data'' (Inr [])
                | b2 # bs2 \<Rightarrow>
                    if is_cont b2
                    then emit ((b0 - 224) * 4096 + (b1 - 128) * 64 + (b2 - 128))
                           (utf8_decode m bs2)
                    else decode_error m ''invalid continuation byte'' (utf8_decode m bs1)))
      else if 240 \<le> b0 \<and> b0 < 245 then
        (case bs of
           [] \<Rightarrow> decode_error m ''unexpected end of data'' (Inr [])
         | b1 # bs1 \<Rightarrow>
             if \<not> second_ok b0 b1
             then decode_error m ''invalid continuation byte'' (utf8_decode m bs)
             else
               (case bs1 of
                  [] \<Rightarrow> decode_error m ''unexpected end of data'' (Inr [])
                | b2 # bs2 \<Rightarrow>
                    if \<not> is_cont b2
                    then decode_error m ''invalid continuation byte'' (utf8_decode m bs1)
                    else
                      (case bs2 of
                         [] \<Rightarrow> decode_error m ''unexpected end of data'' (Inr [])
                       | b3 # bs3 \<Rightarrow>
                           if is_cont b3
                           then emit ((b0 - 240) * 262144 + (b1 - 128) * 4096 +
                                      (b2 - 128) * 64 + (b3 - 128))
                                  (utf8_decode m bs3)
                           else decode_error m ''invalid continuation byte''
                                  (utf8_decode m bs2))))
      else decode_error m ''invalid start byte'' (utf8_decode m bs))"

text \<open>Text mode with \<^verbatim>\<open>newline=None\<close>: \<^verbatim>\<open>\r\n\<close> and a lone \<^verbatim>\<open>\r\<close> are read as \<^verbatim>\<open>\n\<close>.\<close>

fun universal_newlines :: "pystr \<Rightarrow> pystr" where
  "universal_newlines [] = []"
| "universal_newlines (c # cs) =
     (if c = 13 then
        (case cs of
           [] \<Rightarrow> [10]
         | d # ds \<Rightarrow> if d = 10 then 10 # universal_newlines ds else 10 # universal_newlines cs)
      else c # universal_newlines cs)"

definition Path_read_text :: "world \<Rightarrow> errors_mode \<Rightarrow> path \<Rightarrow> exn + pystr" where
  "Path_read_text w m p =
     (case map_of (fs w) p of
        None \<Rightarrow> Inl (Exn ''FileNotFoundError'' (py ''No such file or directory'') None)
      | Some Directory \<Rightarrow> Inl (Exn ''IsADirectoryError'' (py ''Is a directory'') None)
      | Some (UnreadableFile e) \<Rightarrow> Inl e
      | Some (RegularFile bytes) \<Rightarrow>
          (case utf8_decode m bytes of
             Inl e \<Rightarrow> Inl e
           | Inr cs \<Rightarrow> Inr (universal_newlines cs)))"

section \<open>The extractors\<close>

definition ModuleNotFound :: "string \<Rightarrow> exn" where
  "ModuleNotFound module =
     Exn ''ModuleNotFoundError'' (py (''No module named '' @ [CHR 0x27] @ module @ [CHR 0x27])) None"

definition docx_pieces :: "docx_document \<Rightarrow> pystr list" where
  "docx_pieces document =
     [str_strip text. text \<leftarrow> paragraphs document, str_strip text \<noteq> []] @
     concat (map (\<lambda>table.
        [str_join (py '' | '') [str_strip cell. cell \<leftarrow> row, str_strip cell \<noteq> []].
           row \<leftarrow> table, [str_strip cell. cell \<leftarrow> row, str_strip cell \<noteq> []] \<noteq> []])
        (tables document))"

definition read_docx :: "world \<Rightarrow> path \<Rightarrow> exn + pystr" where
  "read_docx w file_path =
     (if \<not> has_docx w then
        Inl (Exn ''RuntimeError''
          (py (''python-docx is required to read .docx files. Install it via '' @
               [CHR 0x27] @ ''pip install python-docx'' @ [CHR 0x27] @ ''.''))
          (Some (ModuleNotFound ''docx'')))
      else
        (case Document w file_path of
           Inl e \<Rightarrow> Inl e
         | Inr document \<Rightarrow> Inr (str_join NL (docx_pieces document))))"

fun pdf_pages :: "pdf_reader \<Rightarrow> exn + pystr list" where
  "pdf_pages [] = Inr []"
| "pdf_pages (page # rest) =
     (case page of
        Inl e \<Rightarrow> Inl e
      | Inr r \<Rightarrow>
          (let text = str_strip (case r of None \<Rightarrow> [] | Some t \<Rightarrow> t)
           in case pdf_pages rest of
                Inl e \<Rightarrow> Inl e
              | Inr pages \<Rightarrow> Inr (if text \<noteq> [] then text # pages else pages)))"

definition read_pdf :: "world \<Rightarrow> path \<Rightarrow> exn + pystr" where
  "read_pdf w file_path =
     (if \<not> has_pypdf w \<and> \<not> has_PyPDF2 w then
        Inl (Exn ''RuntimeError''
          (py (''pypdf or PyPDF2 is required to read .pdf files. Install via '' @
               [CHR 0x27] @ ''pip install pypdf'' @ [CHR 0x27] @ ''.''))
          (Some (ModuleNotFound ''PyPDF2'')))
      else
        (case (if has_pypdf w then PdfReader_pypdf w else PdfReader_PyPDF2 w) file_path of
           Inl e \<Rightarrow> Inl e
         | Inr reader \<Rightarrow>
             (case pdf_pages reader of
                Inl e \<Rightarrow> Inl e
              | Inr pages \<Rightarrow> Inr (str_join ((NL @ NL)) pages))))"

fun shape_fragments :: "shape list \<Rightarrow> pystr list" where
  "shape_fragments [] = []"
| "shape_fragments (ShapeNoText # shapes) = shape_fragments shapes"
| "shape_fragments (ShapeText t # shapes) =
     (let text = str_strip (case t of None \<Rightarrow> [] | Some s \<Rightarrow> s)
      in if text \<noteq> [] then text # shape_fragments shapes else shape_fragments shapes)"

fun slides_output :: "nat \<Rightarrow> presentation \<Rightarrow> pystr list" where
  "slides_output index [] = []"
| "slides_output index (slide # slides) =
     (let fragments = shape_fragments slide
      in if fragments \<noteq> []
         then (py ''Slide '' @ str_nat index @ py '':'' @ NL @
               str_join NL fragments) # slides_output (Suc index) slides
         else slides_output (Suc index) slides)"

definition read_pptx :: "world \<Rightarrow> path \<Rightarrow> exn + pystr" where
  "read_pptx w file_path =
     (if \<not> has_pptx w then
        Inl (Exn ''RuntimeError''
          (py (''python-pptx is required to read .pptx files. Install it via '' @
               [CHR 0x27] @ ''pip install python-pptx'' @ [CHR 0x27] @ ''.''))
          (Some (ModuleNotFound ''pptx'')))
      else
        (case Presentation w file_path of
           Inl e \<Rightarrow> Inl e
         | Inr presentation \<Rightarrow>
             Inr (str_join ((NL @ NL)) (slides_output 1 presentation))))"

definition read_plain_text :: "world \<Rightarrow> path \<Rightarrow> exn + pystr" where
  "read_plain_text w file_path =
     (case Path_read_text w Ignore file_path of
        Inl e \<Rightarrow> Inl e
      | Inr text \<Rightarrow> Inr (str_strip text))"

definition READERS :: "(pystr \<times> (world \<Rightarrow> path \<Rightarrow> exn + pystr)) list" where
  "READERS =
     [(py ''.docx'', read_docx),
      (py ''.pdf'', read_pdf),
      (py ''.pptx'', read_pptx),
      (py ''.txt'', read_plain_text),
      (py ''.md'', read_plain_text)]"

definition sanitize_heading :: "pystr \<Rightarrow> pystr" where
  "sanitize_heading text = map (\<lambda>c. if c = 96 then 8217 else c) text"

definition load_site_brief :: "world \<Rightarrow> path \<Rightarrow> exn + pystr" where
  "load_site_brief w path =
     (if \<not> Path_exists w path then Inr []
      else
        (case Path_read_text w Strict path of
           Inl e \<Rightarrow> Inl e
         | Inr text \<Rightarrow> Inr (str_strip text)))"

section \<open>The source gatherer\<close>

type_synonym buckets = "(path \<times> pystr) list \<times> path list \<times> (path \<times> exn) list"

fun gather_loop :: "world \<Rightarrow> path list \<Rightarrow> buckets \<Rightarrow> buckets" where
  "gather_loop w [] acc = acc"
| "gather_loop w (file_path # rest) (gathered, unsupported, failures) =
     (if Path_is_dir w file_path then gather_loop w rest (gathered, unsupported, failures)
      else
        (case map_of READERS (str_lower (Path_suffix file_path)) of
           None \<Rightarrow> gather_loop w rest (gathered, unsupported @ [file_path], failures)
         | Some reader \<Rightarrow>
             (case reader w file_path of
                Inr text \<Rightarrow>
                  gather_loop w rest
                    (gathered @ [(file_path, str_strip text)], unsupported, failures)
              | Inl exc \<Rightarrow>
                  gather_loop w rest
                    (gathered, unsupported, failures @ [(file_path, exc)]))))"

definition gather_sources :: "world \<Rightarrow> path \<Rightarrow> buckets" where
  "gather_sources w source_dir = gather_loop w (sort (Path_glob_star w source_dir)) ([], [], [])"

section \<open>The bundle builder\<close>

text \<open>
  \<^verbatim>\<open>datetime.now(UTC)\<close> is the reading of the clock, an input of the model.
  \<^verbatim>\<open>isoformat(timespec="seconds")\<close> of an aware UTC datetime prints
  \<^verbatim>\<open>YYYY-MM-DDTHH:MM:SS+00:00\<close> and leaves the microseconds out.
\<close>

record datetime =
  year :: nat
  month :: nat
  day :: nat
  hour :: nat
  minute :: nat
  second :: nat
  microsecond :: nat

definition zero_pad :: "nat \<Rightarrow> nat \<Rightarrow> pystr" where
  "zero_pad width n = replicate (width - length (str_nat n)) 48 @ str_nat n"

definition isoformat_seconds :: "datetime \<Rightarrow> pystr" where
  "isoformat_seconds t =
     zero_pad 4 (year t) @ py ''-'' @ zero_pad 2 (month t) @ py ''-'' @ zero_pad 2 (day t) @
     py ''T'' @ zero_pad 2 (hour t) @ py '':'' @ zero_pad 2 (minute t) @ py '':'' @
     zero_pad 2 (second t) @ py ''+00:00''"

abbreviation fence :: string where
  "fence \<equiv> [CHR 0x60, CHR 0x60, CHR 0x60]"

definition brief_lines :: "pystr \<Rightarrow> pystr list" where
  "brief_lines request_text =
     (if request_text \<noteq> [] then
        [py (''## Site Brief ('' @ [CHR 0x60] @ ''request/site-brief.yaml'' @ [CHR 0x60] @ '')''),
         py (fence @ ''yaml''),
         request_text,
         py fence,
         []]
      else
        [py ''## Site Brief'',
         py (''_No site brief found. Fill out '' @ [CHR 0x60] @ ''request/site-brief.yaml'' @
             [CHR 0x60] @ '' to capture your requirements._''),
         []])"

fun source_lines :: "path \<times> pystr \<Rightarrow> pystr list" where
  "source_lines (file_path, text) =
     [py ''### '' @ sanitize_heading (Path_name file_path)] @
     (if text \<noteq> [] then [py (fence @ ''text''), text, py fence]
      else [py ''_No extractable text content found._'']) @
     [[]]"

definition build_bundle :: "datetime \<Rightarrow> pystr \<Rightarrow> (path \<times> pystr) list \<Rightarrow> pystr" where
  "build_bundle now request_text sources =
     (let timestamp = isoformat_seconds now;
          lines =
            [py ''# Website Request Bundle'', py ''Generated: '' @ timestamp, []] @
            brief_lines request_text @
            [py ''## Source Material''] @
            (if sources = [] then
               [py (''_No supported source files discovered in the '' @ [CHR 0x60] @
                    ''source/'' @ [CHR 0x60] @ '' directory._'')]
             else concat (map source_lines sources))
      in str_strip (str_join NL lines) @ NL)"

section \<open>The driver\<close>

text \<open>
  \<open>main\<close> up to what it hands to the outside: the exception that ends the run, or
  the path and text of the bundle it writes and the two lists it reports. Failures of
  the write itself and the wording of the report are left out. Every path that the
  listing of a directory holds is a path of the file system, so a link whose target is
  missing (listed, but not existing) is outside the model.
\<close>

record args =
  source_dir :: path
  request_file :: path
  output_path :: path

record run =
  written_to :: path
  bundle_text :: pystr
  reported_unsupported :: "path list"
  reported_failures :: "(path \<times> exn) list"

definition main :: "world \<Rightarrow> datetime \<Rightarrow> args \<Rightarrow> exn + run" where
  "main w now a =
     (if \<not> Path_exists w (source_dir a) then
        Inl (Exn ''SystemExit''
               (py ''Source directory not found: '' @ Path_str (source_dir a)) None)
      else
        (case load_site_brief w (request_file a) of
           Inl e \<Rightarrow> Inl e
         | Inr request_text \<Rightarrow>
             (case gather_sources w (source_dir a) of
                (gathered, unsupported, failures) \<Rightarrow>
                  Inr \<lparr>written_to = output_path a,
                       bundle_text = build_bundle now request_text gathered,
                       reported_unsupported = unsupported,
                       reported_failures = failures\<rparr>)))"

section \<open>Notions used to state the properties\<close>

text \<open>What the loop of \<open>gather_sources\<close> does with one entry of the listing.\<close>

datatype outcome = Skipped | Unsupported | Gathered pystr | Failed exn

definition file_outcome :: "world \<Rightarrow> path \<Rightarrow> outcome" where
  "file_outcome w file_path =
     (if Path_is_dir w file_path then Skipped
      else
        (case map_of READERS (str_lower (Path_suffix file_path)) of
           None \<Rightarrow> Unsupported
         | Some reader \<Rightarrow>
             (case reader w file_path of
                Inr text \<Rightarrow> Gathered (str_strip text)
              | Inl exc \<Rightarrow> Failed exc)))"

text \<open>The text of a shape: empty when the shape has no text or its text is \<^verbatim>\<open>None\<close>.\<close>

fun shape_text :: "shape \<Rightarrow> pystr" where
  "shape_text ShapeNoText = []"
| "shape_text (ShapeText None) = []"
| "shape_text (ShapeText (Some s)) = s"

text \<open>The non-empty trimmed cell texts of a table row, and the line they are joined to.\<close>

definition row_cells :: "pystr list \<Rightarrow> pystr list" where
  "row_cells row = filter (\<lambda>cell. cell \<noteq> []) (map str_strip row)"

definition row_line :: "pystr list \<Rightarrow> pystr" where
  "row_line row = str_join (py '' | '') (row_cells row)"

text \<open>
  The docx output as the specification words it: the non-empty trimmed paragraph texts
  and one line for every row of every table. \<open>docx_claimed\<close> reads ``document order''
  over the whole body; \<open>docx_claimed_grouped\<close> reads it within the paragraphs and
  within the table rows, paragraphs first.
\<close>

fun docx_claimed_lines :: "docx_document \<Rightarrow> pystr list" where
  "docx_claimed_lines [] = []"
| "docx_claimed_lines (Paragraph t # bs) =
     (if str_strip t \<noteq> [] then [str_strip t] else []) @ docx_claimed_lines bs"
| "docx_claimed_lines (Table rows # bs) = map row_line rows @ docx_claimed_lines bs"

definition docx_claimed :: "docx_document \<Rightarrow> pystr" where
  "docx_claimed document = str_join NL (docx_claimed_lines document)"

definition docx_claimed_grouped :: "docx_document \<Rightarrow> pystr" where
  "docx_claimed_grouped document =
     str_join NL
       (filter (\<lambda>t. t \<noteq> []) (map str_strip (paragraphs document)) @
        map row_line (concat (tables document)))"

text \<open>
  The two error kinds the specification names: an error of class
  \<^verbatim>\<open>DependencyMissingError\<close>, and an error of class \<^verbatim>\<open>ExtractionError\<close> that wraps
  the underlying parse failure.
\<close>

definition DependencyMissingError :: "exn \<Rightarrow> bool" where
  "DependencyMissingError e \<longleftrightarrow> exn_class e = ''DependencyMissingError''"

definition ExtractionError_wrapping :: "exn \<Rightarrow> exn \<Rightarrow> bool" where
  "ExtractionError_wrapping e underlying \<longleftrightarrow>
     exn_class e = ''ExtractionError'' \<and> exn_cause e = Some underlying"

text \<open>
  Well-formed UTF-8 after table 3-7 of the Unicode standard, stated independently of
  the decoder: a byte sequence is well formed when it is a concatenation of the
  one-, two-, three- and four-byte forms of the table.
\<close>

definition in_range :: "nat \<Rightarrow> nat \<Rightarrow> nat \<Rightarrow> bool" where
  "in_range lo hi b \<longleftrightarrow> lo \<le> b \<and> b \<le> hi"

definition lead3 :: "nat \<Rightarrow> nat \<Rightarrow> bool" where
  "lead3 a b \<longleftrightarrow>
     a = 224 \<and> in_range 160 191 b \<or>
     (in_range 225 236 a \<or> in_range 238 239 a) \<and> in_range 128 191 b \<or>
     a = 237 \<and> in_range 128 159 b"

definition lead4 :: "nat \<Rightarrow> nat \<Rightarrow> bool" where
  "lead4 a b \<longleftrightarrow>
     a = 240 \<and> in_range 144 191 b \<or>
     in_range 241 243 a \<and> in_range 128 191 b \<or>
     a = 244 \<and> in_range 128 143 b"

inductive valid_utf8 :: "nat list \<Rightarrow> bool" where
  empty: "valid_utf8 []"
| one: "in_range 0 127 a \<Longrightarrow> valid_utf8 bs \<Longrightarrow> valid_utf8 (a # bs)"
| two: "in_range 194 223 a \<Longrightarrow> in_range 128 191 b \<Longrightarrow> valid_utf8 bs \<Longrightarrow>
        valid_utf8 (a # b # bs)"
| three: "lead3 a b \<Longrightarrow> in_range 128 191 c \<Longrightarrow> valid_utf8 bs \<Longrightarrow>
          valid_utf8 (a # b # c # bs)"
| four: "lead4 a b \<Longrightarrow> in_range 128 191 c \<Longrightarrow> in_range 128 191 d \<Longrightarrow> valid_utf8 bs \<Longrightarrow>
         valid_utf8 (a # b # c # d # bs)"

code_pred valid_utf8 .

text \<open>One step of lenient decoding either ends the text, skips to a shorter suffix, or
  emits the code point of a whole well-formed sequence and goes on behind it.\<close>

definition ignore_steps :: "nat \<Rightarrow> nat list \<Rightarrow> bool" where
  "ignore_steps b0 bs \<longleftrightarrow>
     utf8_decode Ignore (b0 # bs) = Inr [] \<or>
     (\<exists>ys. suffix ys bs \<and> utf8_decode Ignore (b0 # bs) = utf8_decode Ignore ys) \<or>
     (\<exists>pre ys c. bs = pre @ ys \<and>
        utf8_decode Ignore (b0 # bs) = emit c (utf8_decode Ignore ys) \<and>
        (\<forall>zs. utf8_decode Strict (b0 # pre @ zs) = emit c (utf8_decode Strict zs)))"

text \<open>
  The bundle as the specification describes it, as one text: an entry is a heading
  with the display name, every backtick replaced by U+2019, then the fenced text or
  the placeholder; the brief is a fenced YAML block or its placeholder; the entries are
  separated by blank lines.
\<close>

definition rendered_entry :: "path \<times> pystr \<Rightarrow> pystr" where
  "rendered_entry e =
     py ''### '' @ map (\<lambda>c. if c = 96 then 8217 else c) (Path_name (fst e)) @ NL @
     (if snd e \<noteq> [] then py (fence @ ''text'') @ NL @ snd e @ NL @ py fence
      else py ''_No extractable text content found._'')"

definition rendered_brief :: "pystr \<Rightarrow> pystr" where
  "rendered_brief request_text =
     (if request_text \<noteq> [] then
        py (''## Site Brief ('' @ [CHR 0x60] @ ''request/site-brief.yaml'' @ [CHR 0x60] @ '')'') @ NL @
        py (fence @ ''yaml'') @ NL @ request_text @ NL @ py fence
      else
        py ''## Site Brief'' @ NL @
        py (''_No site brief found. Fill out '' @ [CHR 0x60] @ ''request/site-brief.yaml'' @
            [CHR 0x60] @ '' to capture your requirements._''))"

definition rendered_sources :: "(path \<times> pystr) list \<Rightarrow> pystr" where
  "rendered_sources sources =
     (if sources = [] then
        py (''_No supported source files discovered in the '' @ [CHR 0x60] @
            ''source/'' @ [CHR 0x60] @ '' directory._'')
      else str_join (NL @ NL) (map rendered_entry sources))"

definition bundle_after_timestamp :: "pystr \<Rightarrow> (path \<times> pystr) list \<Rightarrow> pystr" where
  "bundle_after_timestamp request_text sources =
     NL @ NL @ rendered_brief request_text @ NL @ NL @ py ''## Source Material'' @ NL @
     rendered_sources sources @ NL"

subsection \<open>A concrete run\<close>

definition example_presentation :: presentation where
  "example_presentation =
     [[ShapeText (Some (py '' Title '')), ShapeNoText],
      [ShapeText None, ShapeText (Some (py ''   ''))],
      [ShapeText (Some (py ''Agenda'')), ShapeText (Some (py ''Dates'' @ NL))]]"

definition example_fs :: "(path \<times> node) list" where
  "example_fs =
     [([py ''source''], Directory),
      ([py ''source'', py ''skip.csv''], RegularFile (py ''a,b'')),
      ([py ''source'', py ''notes.TXT''], RegularFile (py ''  Hi there'' @ [10])),
      ([py ''source'', py ''deck.pptx''], RegularFile [80, 75]),
      ([py ''source'', py ''old''], Directory),
      ([py ''source'', py ''bad.docx''], RegularFile [0]),
      ([py ''source'', py ''scan.pdf''], RegularFile [37, 80, 68, 70]),
      ([py ''request''], Directory),
      ([py ''request'', py ''site-brief.yaml''], RegularFile (py ''goal: test'' @ [13, 10])),
      ([py ''request'', py ''latin1.yaml''], RegularFile (py ''caf'' @ [233]))]"

definition example_world :: world where
  "example_world =
     \<lparr>has_docx = True, has_pypdf = False, has_PyPDF2 = False, has_pptx = True,
      Document = (\<lambda>p. Inl (Exn ''BadZipFile'' (py ''File is not a zip file'') None)),
      PdfReader_pypdf = (\<lambda>p. Inr []),
      PdfReader_PyPDF2 = (\<lambda>p. Inr []),
      Presentation = (\<lambda>p. Inr example_presentation),
      fs = example_fs\<rparr>"

definition example_document :: docx_document where
  "example_document =
     [Paragraph (py ''Intro ''),
      Table [[py ''Name'', py '' Qty''], [py '' '', []], [py ''Pen'', py ''2'']],
      Paragraph (py ''Outro'')]"

definition docx_world :: world where
  "docx_world = example_world\<lparr>Document := (\<lambda>p. Inr example_document)\<rparr>"

definition example_now :: datetime where
  "example_now =
     \<lparr>year = 2026, month = 1, day = 5, hour = 3, minute = 4, second = 9, microsecond = 77\<rparr>"

definition example_args :: args where
  "example_args =
     \<lparr>source_dir = [py ''source''],
      request_file = [py ''request'', py ''latin1.yaml''],
      output_path = [py ''build'', py ''context-bundle.md'']\<rparr>"

section \<open>Properties\<close>

subsection \<open>Strings\<close>

lemma py_Nil [simp]: "py [] = []"
  by (simp add: py_def)

lemma py_Cons [simp]: "py (c # cs) = of_char c # py cs"
  by (simp add: py_def)

lemma py_append: "py (a @ b) = py a @ py b"
  by (simp add: py_def)

lemma dropWhile_rev_dropWhile:
  "dropWhile P (rev (dropWhile Q (rev (dropWhile P s)))) = rev (dropWhile Q (rev (dropWhile P s)))"
proof (cases "dropWhile Q (rev (dropWhile P s))")
  case Nil
  show ?thesis unfolding Nil by simp
next
  case (Cons a as)
  have "dropWhile P s \<noteq> []"
  proof
    assume "dropWhile P s = []"
    with Cons show False by simp
  qed
  then have h: "\<not> P (hd (dropWhile P s))"
    by (simp add: hd_dropWhile)
  have "suffix (a # as) (rev (dropWhile P s))"
    unfolding Cons [symmetric] by (rule suffix_dropWhile)
  then obtain zs where "rev (dropWhile P s) = zs @ a # as"
    by (auto simp: suffix_def)
  then have "dropWhile P s = rev (a # as) @ rev zs"
    by (metis rev_append rev_rev_ident)
  then have "hd (dropWhile P s) = hd (rev (a # as))"
    by (simp add: hd_append)
  with h have "\<not> P (hd (rev (a # as)))"
    by simp
  then show ?thesis
    unfolding Cons by (cases "rev (a # as)") auto
qed

lemma str_strip_idem: "str_strip (str_strip s) = str_strip s"
proof -
  let ?t = "rev (dropWhile isspace (rev (dropWhile isspace s)))"
  have a: "dropWhile isspace ?t = ?t"
    by (rule dropWhile_rev_dropWhile)
  have b: "dropWhile isspace (rev ?t) = rev ?t"
    by (simp add: dropWhile_idem)
  show ?thesis
    unfolding str_strip_def a unfolding b by simp
qed

lemma str_strip_hd: "str_strip s \<noteq> [] \<Longrightarrow> \<not> isspace (hd (str_strip s))"
proof -
  assume ne: "str_strip s \<noteq> []"
  have "dropWhile isspace (str_strip s) = str_strip s"
    unfolding str_strip_def by (rule dropWhile_rev_dropWhile)
  with ne show ?thesis
    by (metis hd_dropWhile)
qed

lemma str_strip_last: "str_strip s \<noteq> [] \<Longrightarrow> \<not> isspace (last (str_strip s))"
proof -
  assume ne: "str_strip s \<noteq> []"
  let ?d = "dropWhile isspace (rev (dropWhile isspace s))"
  have d: "?d \<noteq> []"
    using ne by (simp add: str_strip_def)
  then have "\<not> isspace (hd ?d)"
    by (rule hd_dropWhile)
  moreover have "last (str_strip s) = hd ?d"
    using d by (simp add: str_strip_def last_rev)
  ultimately show ?thesis
    by simp
qed

lemma dropWhile_hd_id: "xs \<noteq> [] \<Longrightarrow> \<not> P (hd xs) \<Longrightarrow> dropWhile P xs = xs"
  by (cases xs) auto

lemma str_strip_id:
  "s \<noteq> [] \<Longrightarrow> \<not> isspace (hd s) \<Longrightarrow> \<not> isspace (last s) \<Longrightarrow> str_strip s = s"
  by (simp add: str_strip_def dropWhile_hd_id hd_rev)

lemma str_strip_Nil [simp]: "str_strip [] = []"
  by (simp add: str_strip_def)

subsection \<open>The gatherer, entry by entry\<close>

lemma gather_loop_eq:
  "gather_loop w ps (g, u, f) =
     (g @ concat (map (\<lambda>p. case file_outcome w p of Gathered t \<Rightarrow> [(p, t)] | _ \<Rightarrow> []) ps),
      u @ filter (\<lambda>p. file_outcome w p = Unsupported) ps,
      f @ concat (map (\<lambda>p. case file_outcome w p of Failed e \<Rightarrow> [(p, e)] | _ \<Rightarrow> []) ps))"
  by (induction ps arbitrary: g u f)
     (auto simp: file_outcome_def split: option.splits sum.splits)

lemma gathered_mem:
  "(p, t) \<in> set (concat (map (\<lambda>p. case file_outcome w p of Gathered t \<Rightarrow> [(p, t)] | _ \<Rightarrow> []) ps))
   \<longleftrightarrow> p \<in> set ps \<and> file_outcome w p = Gathered t"
  by (auto split: outcome.splits)

lemma failed_mem:
  "(p, e) \<in> set (concat (map (\<lambda>p. case file_outcome w p of Failed e \<Rightarrow> [(p, e)] | _ \<Rightarrow> []) ps))
   \<longleftrightarrow> p \<in> set ps \<and> file_outcome w p = Failed e"
  by (auto split: outcome.splits)

lemma gather_sources_mem:
  assumes "gather_sources w d = (gathered, unsupported, failures)"
  shows "(p, t) \<in> set gathered \<longleftrightarrow>
           p \<in> set (Path_glob_star w d) \<and> file_outcome w p = Gathered t"
    and "p \<in> set unsupported \<longleftrightarrow>
           p \<in> set (Path_glob_star w d) \<and> file_outcome w p = Unsupported"
    and "(p, e) \<in> set failures \<longleftrightarrow>
           p \<in> set (Path_glob_star w d) \<and> file_outcome w p = Failed e"
  using assms unfolding gather_sources_def gather_loop_eq
  by (auto simp: gathered_mem failed_mem simp del: set_concat)

lemma buckets_mset:
  "mset (map fst (concat (map (\<lambda>p. case file_outcome w p of Gathered t \<Rightarrow> [(p, t)] | _ \<Rightarrow> []) ps))) +
   mset (filter (\<lambda>p. file_outcome w p = Unsupported) ps) +
   mset (map fst (concat (map (\<lambda>p. case file_outcome w p of Failed e \<Rightarrow> [(p, e)] | _ \<Rightarrow> []) ps)))
   = mset (filter (\<lambda>p. \<not> Path_is_dir w p) ps)"
proof (induction ps)
  case Nil
  show ?case by simp
next
  case (Cons p ps)
  have dir: "Path_is_dir w p \<longleftrightarrow> file_outcome w p = Skipped"
    by (simp add: file_outcome_def split: option.splits sum.splits)
  show ?case
    using Cons.IH by (cases "file_outcome w p") (simp_all add: dir)
qed

lemma gather_sources_mset:
  assumes "gather_sources w d = (gathered, unsupported, failures)"
  shows "mset (map fst gathered) + mset unsupported + mset (map fst failures) =
         mset (filter (\<lambda>p. \<not> Path_is_dir w p) (Path_glob_star w d))"
proof -
  have "mset (map fst gathered) + mset unsupported + mset (map fst failures) =
        mset (filter (\<lambda>p. \<not> Path_is_dir w p) (sort (Path_glob_star w d)))"
  proof -
    from assms have eqs:
      "gathered = concat (map (\<lambda>p. case file_outcome w p of Gathered t \<Rightarrow> [(p, t)] | _ \<Rightarrow> [])
         (sort (Path_glob_star w d)))"
      "unsupported = filter (\<lambda>p. file_outcome w p = Unsupported) (sort (Path_glob_star w d))"
      "failures = concat (map (\<lambda>p. case file_outcome w p of Failed e \<Rightarrow> [(p, e)] | _ \<Rightarrow> [])
         (sort (Path_glob_star w d)))"
      by (simp_all add: gather_sources_def gather_loop_eq)
    show ?thesis unfolding eqs by (rule buckets_mset)
  qed
  then show ?thesis by simp
qed

subsection \<open>The concrete run, evaluated\<close>

lemma example_sort:
  "sort (Path_glob_star example_world [py ''source'']) =
     [[py ''source'', py ''bad.docx''], [py ''source'', py ''deck.pptx''],
      [py ''source'', py ''notes.TXT''], [py ''source'', py ''old''],
      [py ''source'', py ''scan.pdf''], [py ''source'', py ''skip.csv'']]"
  by (simp add: Path_glob_star_def example_world_def example_fs_def)

lemma example_gather:
  "gather_sources example_world [py ''source''] =
     ([([py ''source'', py ''deck.pptx''],
        py ''Slide 1:'' @ NL @ py ''Title'' @ NL @ NL @
        py ''Slide 3:'' @ NL @ py ''Agenda'' @ NL @ py ''Dates''),
       ([py ''source'', py ''notes.TXT''], py ''Hi there'')],
      [[py ''source'', py ''skip.csv'']],
      [([py ''source'', py ''bad.docx''],
        Exn ''BadZipFile'' (py ''File is not a zip file'') None),
       ([py ''source'', py ''scan.pdf''],
        Exn ''RuntimeError''
          (py (''pypdf or PyPDF2 is required to read .pdf files. Install via '' @
               [CHR 0x27] @ ''pip install pypdf'' @ [CHR 0x27] @ ''.''))
          (Some (ModuleNotFound ''PyPDF2'')))])"
  unfolding gather_sources_def example_sort
  by (simp add: Path_is_dir_def example_world_def example_fs_def
        Path_suffix_def Path_name_def str_rfind_def str_lower_def lower_cp_def
        READERS_def read_docx_def read_pdf_def read_pptx_def read_plain_text_def
        Path_read_text_def example_presentation_def str_strip_def isspace_def str_nat.simps
        ModuleNotFound_def)

lemma example_fs_distinct: "distinct (map fst (fs example_world))"
  by (simp add: example_world_def example_fs_def)

subsection \<open>C1: the three collections partition the listing\<close>

text \<open>
  C1. For every world and source directory, the paths of the gathered results, the
  unsupported paths and the paths of the failure records together are, as a multiset,
  exactly the direct entries of the directory that are not directories: every such
  entry is in one collection, once. When the file system names each path once, the
  three collections taken together have no path twice, so no entry is in two of them.
\<close>

theorem gather_sources_partition:
  assumes "gather_sources w d = (gathered, unsupported, failures)"
  shows "mset (map fst gathered) + mset unsupported + mset (map fst failures) =
           mset (filter (\<lambda>p. \<not> Path_is_dir w p) (Path_glob_star w d)) \<and>
         (distinct (map fst (fs w)) \<longrightarrow>
            distinct (map fst gathered @ unsupported @ map fst failures))"
proof -
  have m: "mset (map fst gathered @ unsupported @ map fst failures) =
           mset (filter (\<lambda>p. \<not> Path_is_dir w p) (Path_glob_star w d))"
    using gather_sources_mset [OF assms] by (simp add: ac_simps)
  have "distinct (map fst gathered @ unsupported @ map fst failures)"
    if "distinct (map fst (fs w))"
  proof -
    have "distinct (filter (\<lambda>p. \<not> Path_is_dir w p) (Path_glob_star w d))"
      using that by (simp add: Path_glob_star_def)
    then show ?thesis
      using m by (metis mset_eq_imp_distinct_iff)
  qed
  with gather_sources_mset [OF assms] show ?thesis
    by blast
qed

theorem gather_sources_partition_witness:
  "(case gather_sources example_world [py ''source''] of
      (gathered, unsupported, failures) \<Rightarrow>
        mset (map fst gathered) + mset unsupported + mset (map fst failures) =
          mset (filter (\<lambda>p. \<not> Path_is_dir example_world p)
                  (Path_glob_star example_world [py ''source''])) \<and>
        distinct (map fst gathered @ unsupported @ map fst failures))"
  using gather_sources_partition [OF example_gather] example_fs_distinct
  unfolding example_gather prod.case by blast

subsection \<open>C10: gathered text is trimmed\<close>

text \<open>
  C10. Every text that \<open>gather_sources\<close> records among the gathered results is
  trimmed: trimming it again changes nothing, and when it is not empty neither its first
  nor its last code point is whitespace. This holds whichever reader produced the text.
\<close>

theorem gathered_text_stripped:
  assumes "gather_sources w d = (gathered, unsupported, failures)"
    and "(file_path, text) \<in> set gathered"
  shows "str_strip text = text \<and>
         (text = [] \<or> (\<not> isspace (hd text) \<and> \<not> isspace (last text)))"
proof -
  from gather_sources_mem(1) [OF assms(1)] assms(2)
  have "file_outcome w file_path = Gathered text"
    by blast
  then obtain raw where "text = str_strip raw"
    by (auto simp: file_outcome_def split: if_splits option.splits sum.splits)
  then show ?thesis
    using str_strip_idem str_strip_hd str_strip_last by metis
qed

theorem gathered_text_stripped_witness:
  "str_strip (py ''Hi there'') = py ''Hi there'' \<and>
   (py ''Hi there'' = [] \<or>
    (\<not> isspace (hd (py ''Hi there'')) \<and> \<not> isspace (last (py ''Hi there''))))"
  using gathered_text_stripped
    [OF example_gather, of "[py ''source'', py ''notes.TXT'']" "py ''Hi there''"]
  by simp

subsection \<open>C5: the reader is chosen by the lowered extension\<close>

lemma READERS_dom:
  "dom (map_of READERS) = {py ''.docx'', py ''.pdf'', py ''.pptx'', py ''.txt'', py ''.md''}"
  by (simp add: READERS_def dom_map_of_conv_image_fst del: py_Cons py_Nil)

lemma READERS_lookup:
  "map_of READERS (py ''.docx'') = Some read_docx"
  "map_of READERS (py ''.pdf'') = Some read_pdf"
  "map_of READERS (py ''.pptx'') = Some read_pptx"
  "map_of READERS (py ''.txt'') = Some read_plain_text"
  "map_of READERS (py ''.md'') = Some read_plain_text"
  by (simp_all add: READERS_def)

lemma file_outcome_None:
  "\<not> Path_is_dir w p \<Longrightarrow> map_of READERS (str_lower (Path_suffix p)) = None \<Longrightarrow>
     file_outcome w p = Unsupported"
  by (simp add: file_outcome_def)

lemma file_outcome_Inr:
  "\<not> Path_is_dir w p \<Longrightarrow> map_of READERS (str_lower (Path_suffix p)) = Some reader \<Longrightarrow>
     reader w p = Inr raw \<Longrightarrow> file_outcome w p = Gathered (str_strip raw)"
  by (simp add: file_outcome_def)

lemma file_outcome_Inl:
  "\<not> Path_is_dir w p \<Longrightarrow> map_of READERS (str_lower (Path_suffix p)) = Some reader \<Longrightarrow>
     reader w p = Inl exc \<Longrightarrow> file_outcome w p = Failed exc"
  by (simp add: file_outcome_def)

lemma fst_image_iff: "p \<in> fst ` set xs \<longleftrightarrow> (\<exists>t. (p, t) \<in> set xs)"
  by force

lemma main_result:
  assumes "main w now a = Inr r"
  shows "\<exists>request_text. load_site_brief w (request_file a) = Inr request_text \<and>
           bundle_text r = build_bundle now request_text (fst (gather_sources w (source_dir a))) \<and>
           reported_unsupported r = fst (snd (gather_sources w (source_dir a))) \<and>
           reported_failures r = snd (snd (gather_sources w (source_dir a)))"
  using assms
  by (auto simp: main_def split: if_splits sum.splits prod.splits)

text \<open>
  C5. The keys of \<open>READERS\<close> are exactly \<^verbatim>\<open>.docx\<close>, \<^verbatim>\<open>.pdf\<close>, \<^verbatim>\<open>.pptx\<close>,
  \<^verbatim>\<open>.txt\<close> and \<^verbatim>\<open>.md\<close>. For every entry of the listing that is not a directory: when
  its lowered suffix is one of the five, a reader is registered for it, the entry is not
  unsupported, and it is gathered (with the trimmed text) when the reader returns and
  recorded as a failure when the reader raises; when its lowered suffix is anything else,
  the entry is unsupported and is neither gathered nor a failure, so that \<open>main\<close>, which
  builds the bundle from the gathered results only, leaves it out.
\<close>

theorem reader_selection:
  assumes "gather_sources w d = (gathered, unsupported, failures)"
    and "p \<in> set (Path_glob_star w d)"
    and "\<not> Path_is_dir w p"
  shows "dom (map_of READERS) = {py ''.docx'', py ''.pdf'', py ''.pptx'', py ''.txt'', py ''.md''} \<and>
         (str_lower (Path_suffix p) \<in> {py ''.docx'', py ''.pdf'', py ''.pptx'', py ''.txt'', py ''.md''} \<longrightarrow>
            p \<notin> set unsupported \<and>
            (\<exists>reader. map_of READERS (str_lower (Path_suffix p)) = Some reader \<and>
               (case reader w p of
                  Inr raw \<Rightarrow> (p, str_strip raw) \<in> set gathered \<and> p \<notin> fst ` set failures
                | Inl exc \<Rightarrow> (p, exc) \<in> set failures \<and> p \<notin> fst ` set gathered))) \<and>
         (str_lower (Path_suffix p) \<notin> {py ''.docx'', py ''.pdf'', py ''.pptx'', py ''.txt'', py ''.md''} \<longrightarrow>
            p \<in> set unsupported \<and> p \<notin> fst ` set gathered \<and> p \<notin> fst ` set failures)"
proof -
  note mem = gather_sources_mem [OF assms(1)]
  have g: "p \<in> fst ` set gathered \<longleftrightarrow> (\<exists>t. file_outcome w p = Gathered t)"
    unfolding fst_image_iff using mem(1) [of p] assms(2) by blast
  have f: "p \<in> fst ` set failures \<longleftrightarrow> (\<exists>e. file_outcome w p = Failed e)"
    unfolding fst_image_iff using mem(3) [of p] assms(2) by blast
  have u: "p \<in> set unsupported \<longleftrightarrow> file_outcome w p = Unsupported"
    using mem(2) assms(2) by blast
  let ?k = "str_lower (Path_suffix p)"
  have no: "p \<in> set unsupported \<and> p \<notin> fst ` set gathered \<and> p \<notin> fst ` set failures"
    if "?k \<notin> dom (map_of READERS)"
  proof -
    from that have "map_of READERS ?k = None"
      by blast
    then have "file_outcome w p = Unsupported"
      using assms(3) by (simp add: file_outcome_None)
    then show ?thesis
      by (simp add: g f u)
  qed
  have yes: "p \<notin> set unsupported \<and>
            (\<exists>reader. map_of READERS ?k = Some reader \<and>
               (case reader w p of
                  Inr raw \<Rightarrow> (p, str_strip raw) \<in> set gathered \<and> p \<notin> fst ` set failures
                | Inl exc \<Rightarrow> (p, exc) \<in> set failures \<and> p \<notin> fst ` set gathered))"
    if "?k \<in> dom (map_of READERS)"
  proof -
    from that obtain reader where r: "map_of READERS ?k = Some reader"
      by blast
    show ?thesis
    proof (cases "reader w p")
      case (Inl exc)
      have o: "file_outcome w p = Failed exc"
        using assms(3) r Inl by (rule file_outcome_Inl)
      then have "(p, exc) \<in> set failures"
        using mem(3) assms(2) by blast
      with o r Inl show ?thesis
        by (simp add: g u)
    next
      case (Inr raw)
      have o: "file_outcome w p = Gathered (str_strip raw)"
        using assms(3) r Inr by (rule file_outcome_Inr)
      then have "(p, str_strip raw) \<in> set gathered"
        using mem(1) assms(2) by blast
      with o r Inr show ?thesis
        by (simp add: f u)
    qed
  qed
  from yes no show ?thesis
    unfolding READERS_dom by blast
qed

lemma example_glob:
  "Path_glob_star example_world [py ''source''] =
     [[py ''source'', py ''skip.csv''], [py ''source'', py ''notes.TXT''],
      [py ''source'', py ''deck.pptx''], [py ''source'', py ''old''],
      [py ''source'', py ''bad.docx''], [py ''source'', py ''scan.pdf'']]"
  by (simp add: Path_glob_star_def example_world_def example_fs_def)

theorem reader_selection_witness:
  "[py ''source'', py ''skip.csv''] \<in>
     set (fst (snd (gather_sources example_world [py ''source'']))) \<and>
   [py ''source'', py ''notes.TXT''] \<notin>
     set (fst (snd (gather_sources example_world [py ''source'']))) \<and>
   ([py ''source'', py ''notes.TXT''], py ''Hi there'') \<in>
     set (fst (gather_sources example_world [py ''source'']))"
  using reader_selection [OF example_gather, of "[py ''source'', py ''skip.csv'']"]
    reader_selection [OF example_gather, of "[py ''source'', py ''notes.TXT'']"]
  unfolding example_gather example_glob
  by simp

subsection \<open>C3: the docx extractor\<close>

lemma concat_if_filter:
  "concat (map (\<lambda>x. if f x \<noteq> [] then [f x] else []) xs) = filter (\<lambda>t. t \<noteq> []) (map f xs)"
  by (induction xs) auto

lemma concat_rows:
  "concat (map (\<lambda>row. if row_cells row \<noteq> [] then [row_line row] else []) rows) =
     map row_line (filter (\<lambda>row. row_cells row \<noteq> []) rows)"
  by (induction rows) auto

lemma docx_pieces_eq:
  "docx_pieces document =
     filter (\<lambda>t. t \<noteq> []) (map str_strip (paragraphs document)) @
     map row_line (filter (\<lambda>row. row_cells row \<noteq> []) (concat (tables document)))"
proof -
  have cells:
    "concat (map (\<lambda>cell. if str_strip cell \<noteq> [] then [str_strip cell] else []) row) =
       row_cells row" for row
    unfolding row_cells_def by (rule concat_if_filter)
  have table:
    "concat (map (\<lambda>row. if row_cells row \<noteq> []
                          then [str_join (py '' | '') (row_cells row)] else []) t) =
       map row_line (filter (\<lambda>row. row_cells row \<noteq> []) t)" for t
    unfolding row_line_def [symmetric] by (rule concat_rows)
  show ?thesis
    unfolding docx_pieces_def cells table concat_if_filter
    by (simp add: row_cells_def map_concat filter_concat comp_def del: py_Cons py_Nil)
qed

lemma example_docx:
  "read_docx docx_world p =
     Inr (py ''Intro'' @ NL @ py ''Outro'' @ NL @ py ''Name | Qty'' @ NL @ py ''Pen | 2'')"
  by (simp add: read_docx_def docx_world_def example_world_def example_document_def
        docx_pieces_def str_strip_def isspace_def)

text \<open>
  C3, as stated, fails. The document of \<open>docx_world\<close> has a paragraph, a table of
  three rows whose second row has only blank cells, and a closing paragraph. The code
  returns four lines: both paragraphs, then the two rows that have text. One line for
  every row gives a fifth, empty line, whichever way ``document order'' is read, and
  document order over the whole body puts the table between the paragraphs.
\<close>

theorem read_docx_claimed_counterexample:
  "read_docx docx_world [py ''source'', py ''order.docx''] =
     Inr (py ''Intro'' @ NL @ py ''Outro'' @ NL @ py ''Name | Qty'' @ NL @ py ''Pen | 2'') \<and>
   docx_claimed example_document =
     py ''Intro'' @ NL @ py ''Name | Qty'' @ NL @ NL @ py ''Pen | 2'' @ NL @ py ''Outro'' \<and>
   docx_claimed_grouped example_document =
     py ''Intro'' @ NL @ py ''Outro'' @ NL @ py ''Name | Qty'' @ NL @ NL @ py ''Pen | 2'' \<and>
   read_docx docx_world [py ''source'', py ''order.docx''] \<noteq>
     Inr (docx_claimed example_document) \<and>
   read_docx docx_world [py ''source'', py ''order.docx''] \<noteq>
     Inr (docx_claimed_grouped example_document)"
  by (simp add: example_docx docx_claimed_def docx_claimed_grouped_def example_document_def
        row_line_def row_cells_def str_strip_def isspace_def)

text \<open>
  C3, amended. When python-docx is installed and parses the file, the output is the
  join, with a newline between them, of: first the trimmed texts of the top-level
  paragraphs that are not empty after trimming, in document order; then, for the
  top-level tables in document order and their rows in order, the non-empty trimmed cell
  texts of the row joined with \<^verbatim>\<open> | \<close>, for the rows that have such a cell. A row whose
  cells are all empty after trimming gives no line, and every paragraph line comes
  before every table line.
\<close>

theorem read_docx_lines:
  assumes "has_docx w" and "Document w p = Inr document"
  shows "read_docx w p =
           Inr (str_join NL
                  (filter (\<lambda>t. t \<noteq> []) (map str_strip (paragraphs document)) @
                   map row_line
                     (filter (\<lambda>row. row_cells row \<noteq> []) (concat (tables document)))))"
  using assms by (simp add: read_docx_def docx_pieces_eq)

theorem read_docx_lines_witness:
  "read_docx docx_world [py ''source'', py ''order.docx''] =
     Inr (py ''Intro'' @ NL @ py ''Outro'' @ NL @ py ''Name | Qty'' @ NL @ py ''Pen | 2'')"
  using read_docx_lines [of docx_world "[py ''source'', py ''order.docx'']" example_document]
  by (simp add: docx_world_def example_world_def example_document_def
        row_line_def row_cells_def str_strip_def isspace_def)

subsection \<open>C4: what the extractors raise\<close>

lemma sublist_mid3: "sublist b (a @ c @ q @ b @ r)"
  using sublist_appendI [of b "a @ c @ q" r] by simp

lemma docx_missing:
  assumes "\<not> has_docx w"
  shows "\<exists>e. read_docx w p = Inl e \<and> exn_class e = ''RuntimeError'' \<and>
             sublist (py ''python-docx'') (exn_msg e) \<and>
             sublist (py ''pip install python-docx'') (exn_msg e) \<and>
             exn_cause e = Some (ModuleNotFound ''docx'')"
proof -
  have "py ''python-docx is required to read .docx files. Install it via '' =
        py ''python-docx'' @ py '' is required to read .docx files. Install it via ''"
    by simp
  then show ?thesis
    using assms unfolding read_docx_def py_append
    by (simp add: sublist_mid3 del: py_Cons py_Nil)
qed

lemma pptx_missing:
  assumes "\<not> has_pptx w"
  shows "\<exists>e. read_pptx w p = Inl e \<and> exn_class e = ''RuntimeError'' \<and>
             sublist (py ''python-pptx'') (exn_msg e) \<and>
             sublist (py ''pip install python-pptx'') (exn_msg e) \<and>
             exn_cause e = Some (ModuleNotFound ''pptx'')"
proof -
  have "py ''python-pptx is required to read .pptx files. Install it via '' =
        py ''python-pptx'' @ py '' is required to read .pptx files. Install it via ''"
    by simp
  then show ?thesis
    using assms unfolding read_pptx_def py_append
    by (simp add: sublist_mid3 del: py_Cons py_Nil)
qed

lemma pdf_missing:
  assumes "\<not> has_pypdf w" and "\<not> has_PyPDF2 w"
  shows "\<exists>e. read_pdf w p = Inl e \<and> exn_class e = ''RuntimeError'' \<and>
             sublist (py ''pypdf or PyPDF2'') (exn_msg e) \<and>
             sublist (py ''pip install pypdf'') (exn_msg e) \<and>
             exn_cause e = Some (ModuleNotFound ''PyPDF2'')"
proof -
  have "py ''pypdf or PyPDF2 is required to read .pdf files. Install via '' =
        py ''pypdf or PyPDF2'' @ py '' is required to read .pdf files. Install via ''"
    by simp
  then show ?thesis
    using assms unfolding read_pdf_def py_append
    by (simp add: sublist_mid3 del: py_Cons py_Nil)
qed

lemma parse_failure_unwrapped:
  "has_docx w \<Longrightarrow> Document w p = Inl u \<Longrightarrow> read_docx w p = Inl u"
  "has_pptx w \<Longrightarrow> Presentation w p = Inl u \<Longrightarrow> read_pptx w p = Inl u"
  "has_pypdf w \<Longrightarrow> PdfReader_pypdf w p = Inl u \<Longrightarrow> read_pdf w p = Inl u"
  "\<not> has_pypdf w \<Longrightarrow> has_PyPDF2 w \<Longrightarrow> PdfReader_PyPDF2 w p = Inl u \<Longrightarrow> read_pdf w p = Inl u"
  by (simp_all add: read_docx_def read_pptx_def read_pdf_def)

lemma reader_failure_recorded:
  assumes "gather_sources w d = (gathered, unsupported, failures)"
    and "p \<in> set (Path_glob_star w d)" and "\<not> Path_is_dir w p"
    and "map_of READERS (str_lower (Path_suffix p)) = Some reader"
    and "reader w p = Inl exc"
  shows "(p, exc) \<in> set failures \<and> p \<notin> fst ` set gathered \<and> p \<notin> set unsupported"
proof -
  have o: "file_outcome w p = Failed exc"
    using assms(3,4,5) by (rule file_outcome_Inl)
  note mem = gather_sources_mem [OF assms(1)]
  show ?thesis
    unfolding fst_image_iff using o mem(1) [of p] mem(2) [of p] mem(3) [of p exc] assms(2)
    by simp
qed

lemma example_read_docx:
  "read_docx example_world p = Inl (Exn ''BadZipFile'' (py ''File is not a zip file'') None)"
  by (simp add: read_docx_def example_world_def)

lemma example_read_pdf:
  "read_pdf example_world p =
     Inl (Exn ''RuntimeError''
            (py (''pypdf or PyPDF2 is required to read .pdf files. Install via '' @
                 [CHR 0x27] @ ''pip install pypdf'' @ [CHR 0x27] @ ''.''))
            (Some (ModuleNotFound ''PyPDF2'')))"
  by (simp add: read_pdf_def example_world_def)

text \<open>
  C4, as stated, fails. In \<open>example_world\<close> python-docx is installed and rejects
  \<^verbatim>\<open>bad.docx\<close> with its own \<^verbatim>\<open>BadZipFile\<close>: \<open>read_docx\<close> raises that very
  exception, which is not of class \<^verbatim>\<open>ExtractionError\<close> and wraps nothing. Neither pdf
  package is installed: \<open>read_pdf\<close> raises a \<^verbatim>\<open>RuntimeError\<close>, not an error of class
  \<^verbatim>\<open>DependencyMissingError\<close>.
\<close>

theorem extractor_error_classes_counterexample:
  "read_docx example_world [py ''source'', py ''bad.docx''] =
     Inl (Exn ''BadZipFile'' (py ''File is not a zip file'') None) \<and>
   \<not> ExtractionError_wrapping
       (Exn ''BadZipFile'' (py ''File is not a zip file'') None)
       (Exn ''BadZipFile'' (py ''File is not a zip file'') None) \<and>
   read_pdf example_world [py ''source'', py ''scan.pdf''] =
     Inl (Exn ''RuntimeError''
            (py (''pypdf or PyPDF2 is required to read .pdf files. Install via '' @
                 [CHR 0x27] @ ''pip install pypdf'' @ [CHR 0x27] @ ''.''))
            (Some (ModuleNotFound ''PyPDF2''))) \<and>
   \<not> DependencyMissingError
       (Exn ''RuntimeError''
            (py (''pypdf or PyPDF2 is required to read .pdf files. Install via '' @
                 [CHR 0x27] @ ''pip install pypdf'' @ [CHR 0x27] @ ''.''))
            (Some (ModuleNotFound ''PyPDF2'')))"
  unfolding example_read_docx example_read_pdf
  by (simp add: ExtractionError_wrapping_def DependencyMissingError_def)

text \<open>
  C4, amended. When the package a format needs cannot be imported (python-docx for docx,
  python-pptx for pptx, both pypdf and PyPDF2 for pdf), the extractor raises a
  \<^verbatim>\<open>RuntimeError\<close> whose message names the package and the \<^verbatim>\<open>pip install\<close> command, with
  the \<^verbatim>\<open>ModuleNotFoundError\<close> as its cause. When the package is there and its parser raises
  on the file, the extractor raises that same exception, unwrapped. Whatever a selected
  reader raises on an entry of the listing, \<open>gather_sources\<close> returns and holds the
  entry with that exception among its failure records, and nowhere else.
\<close>

theorem extractor_errors:
  "(\<not> has_docx w \<longrightarrow>
      (\<exists>e. read_docx w p = Inl e \<and> exn_class e = ''RuntimeError'' \<and>
           sublist (py ''python-docx'') (exn_msg e) \<and>
           sublist (py ''pip install python-docx'') (exn_msg e) \<and>
           exn_cause e = Some (ModuleNotFound ''docx''))) \<and>
   (\<not> has_pptx w \<longrightarrow>
      (\<exists>e. read_pptx w p = Inl e \<and> exn_class e = ''RuntimeError'' \<and>
           sublist (py ''python-pptx'') (exn_msg e) \<and>
           sublist (py ''pip install python-pptx'') (exn_msg e) \<and>
           exn_cause e = Some (ModuleNotFound ''pptx''))) \<and>
   (\<not> has_pypdf w \<and> \<not> has_PyPDF2 w \<longrightarrow>
      (\<exists>e. read_pdf w p = Inl e \<and> exn_class e = ''RuntimeError'' \<and>
           sublist (py ''pypdf or PyPDF2'') (exn_msg e) \<and>
           sublist (py ''pip install pypdf'') (exn_msg e) \<and>
           exn_cause e = Some (ModuleNotFound ''PyPDF2''))) \<and>
   (has_docx w \<and> Document w p = Inl u \<longrightarrow> read_docx w p = Inl u) \<and>
   (has_pptx w \<and> Presentation w p = Inl u \<longrightarrow> read_pptx w p = Inl u) \<and>
   (has_pypdf w \<and> PdfReader_pypdf w p = Inl u \<longrightarrow> read_pdf w p = Inl u) \<and>
   (\<not> has_pypdf w \<and> has_PyPDF2 w \<and> PdfReader_PyPDF2 w p = Inl u \<longrightarrow> read_pdf w p = Inl u) \<and>
   (gather_sources w d = (gathered, unsupported, failures) \<and>
    p \<in> set (Path_glob_star w d) \<and> \<not> Path_is_dir w p \<and>
    map_of READERS (str_lower (Path_suffix p)) = Some reader \<and> reader w p = Inl exc \<longrightarrow>
      (p, exc) \<in> set failures \<and> p \<notin> fst ` set gathered \<and> p \<notin> set unsupported)"
  using docx_missing [of w p] pptx_missing [of w p] pdf_missing [of w p]
    parse_failure_unwrapped [of w p u]
    reader_failure_recorded [of w d gathered unsupported failures p reader exc]
  by blast

theorem extractor_errors_witness:
  "read_docx example_world [py ''source'', py ''bad.docx''] =
     Inl (Exn ''BadZipFile'' (py ''File is not a zip file'') None) \<and>
   ([py ''source'', py ''bad.docx''], Exn ''BadZipFile'' (py ''File is not a zip file'') None)
     \<in> set (snd (snd (gather_sources example_world [py ''source'']))) \<and>
   (\<exists>e. read_pdf example_world [py ''source'', py ''scan.pdf''] = Inl e \<and>
        exn_class e = ''RuntimeError'' \<and>
        sublist (py ''pypdf or PyPDF2'') (exn_msg e) \<and>
        sublist (py ''pip install pypdf'') (exn_msg e))"
proof -
  have w: "has_docx example_world" "\<not> has_pypdf example_world" "\<not> has_PyPDF2 example_world"
    "Document example_world [py ''source'', py ''bad.docx''] =
       Inl (Exn ''BadZipFile'' (py ''File is not a zip file'') None)"
    by (simp_all add: example_world_def)
  have a: "read_docx example_world [py ''source'', py ''bad.docx''] =
       Inl (Exn ''BadZipFile'' (py ''File is not a zip file'') None)"
    using extractor_errors
      [of example_world "[py ''source'', py ''bad.docx'']"
          "Exn ''BadZipFile'' (py ''File is not a zip file'') None"] w
    by blast
  have b: "([py ''source'', py ''bad.docx''],
            Exn ''BadZipFile'' (py ''File is not a zip file'') None)
       \<in> set (snd (snd (gather_sources example_world [py ''source''])))"
    unfolding example_gather by simp
  have c: "\<exists>e. read_pdf example_world [py ''source'', py ''scan.pdf''] = Inl e \<and>
        exn_class e = ''RuntimeError'' \<and>
        sublist (py ''pypdf or PyPDF2'') (exn_msg e) \<and>
        sublist (py ''pip install pypdf'') (exn_msg e)"
    using extractor_errors [of example_world "[py ''source'', py ''scan.pdf'']"] w
    by blast
  from a b c show ?thesis
    by blast
qed

subsection \<open>C6: the pptx extractor\<close>

lemma shape_fragments_eq:
  "shape_fragments shapes =
     filter (\<lambda>t. t \<noteq> []) (map (\<lambda>s. str_strip (shape_text s)) shapes)"
proof (induction shapes)
  case Nil
  show ?case by simp
next
  case (Cons s shapes)
  show ?case
  proof (cases s)
    case ShapeNoText
    with Cons show ?thesis by simp
  next
    case (ShapeText t)
    with Cons show ?thesis by (cases t) (simp_all add: Let_def)
  qed
qed

lemma str_nat_decimal: "foldl (\<lambda>a c. 10 * a + (c - 48)) 0 (str_nat n) = n"
proof (induction n rule: str_nat.induct)
  case (1 n)
  show ?case
  proof (cases "n < 10")
    case True
    then show ?thesis
      by (simp add: str_nat.simps [of n])
  next
    case False
    with "1.IH" show ?thesis
      by (simp add: str_nat.simps [of n])
  qed
qed

lemma slides_output_eq:
  "slides_output k slides =
     map (\<lambda>i. py ''Slide '' @ str_nat (k + i) @ py '':'' @ NL @
                str_join NL (shape_fragments (slides ! i)))
       (filter (\<lambda>i. shape_fragments (slides ! i) \<noteq> []) [0..<length slides])"
proof (induction slides arbitrary: k)
  case Nil
  show ?case by simp
next
  case (Cons slide slides)
  have upt: "[0..<length (slide # slides)] = 0 # map Suc [0..<length slides]"
    by (simp add: upt_conv_Cons map_Suc_upt del: upt_Suc)
  show ?case
    unfolding upt
    by (simp add: Cons.IH [of "Suc k"] Let_def filter_map comp_def del: py_Cons py_Nil)
qed

text \<open>
  C6. When python-pptx is installed and parses the file, the output is the join, with a
  blank line between them, of one block for each slide that has a fragment, in slide
  order. The fragments of a slide are the trimmed texts of its shapes that are not empty
  after trimming (a shape without a \<^verbatim>\<open>text\<close> attribute, or whose text is \<^verbatim>\<open>None\<close>, has
  none). The block of the slide at index \<open>i\<close> of the full slide list is the header
  \<^verbatim>\<open>Slide i+1:\<close>, a newline, and the fragments joined with newlines: the number counts
  all slides, also those left out, and a slide without fragments gives nothing. The
  number is printed in decimal (\<open>str_nat_decimal\<close>).
\<close>

theorem read_pptx_slides:
  assumes "has_pptx w" and "Presentation w p = Inr slides"
  shows "read_pptx w p =
           Inr (str_join (NL @ NL)
                  (map (\<lambda>i. py ''Slide '' @ str_nat (Suc i) @ py '':'' @ NL @
                              str_join NL (shape_fragments (slides ! i)))
                     (filter (\<lambda>i. shape_fragments (slides ! i) \<noteq> []) [0..<length slides]))) \<and>
         (\<forall>slide. shape_fragments slide =
                    filter (\<lambda>t. t \<noteq> []) (map (\<lambda>s. str_strip (shape_text s)) slide))"
  using assms
  by (simp add: read_pptx_def slides_output_eq shape_fragments_eq [symmetric]
        del: py_Cons py_Nil)

theorem read_pptx_slides_witness:
  "read_pptx example_world [py ''source'', py ''deck.pptx''] =
     Inr (py ''Slide 1:'' @ NL @ py ''Title'' @ NL @ NL @
          py ''Slide 3:'' @ NL @ py ''Agenda'' @ NL @ py ''Dates'')"
  using read_pptx_slides
    [of example_world "[py ''source'', py ''deck.pptx'']" example_presentation]
  by (simp add: example_world_def example_presentation_def str_strip_def isspace_def
        str_nat.simps)

subsection \<open>The text of the bundle\<close>

lemma str_join_Cons: "ys \<noteq> [] \<Longrightarrow> str_join sep (x # ys) = x @ sep @ str_join sep ys"
  by (cases ys) simp_all

lemma str_join_append:
  "xs \<noteq> [] \<Longrightarrow> ys \<noteq> [] \<Longrightarrow>
     str_join sep (xs @ ys) = str_join sep xs @ sep @ str_join sep ys"
proof (induction xs)
  case Nil
  then show ?case by simp
next
  case (Cons x xs)
  show ?case
  proof (cases "xs = []")
    case True
    with Cons.prems show ?thesis by (simp add: str_join_Cons)
  next
    case False
    with Cons show ?thesis by (simp add: str_join_Cons)
  qed
qed

lemma last_str_join:
  "xs \<noteq> [] \<Longrightarrow> last xs \<noteq> [] \<Longrightarrow>
     str_join sep xs \<noteq> [] \<and> last (str_join sep xs) = last (last xs)"
proof (induction xs)
  case Nil
  then show ?case by simp
next
  case (Cons x xs)
  show ?case
  proof (cases "xs = []")
    case True
    with Cons.prems show ?thesis by simp
  next
    case False
    with Cons show ?thesis by (simp add: str_join_Cons)
  qed
qed

lemma source_lines_join: "str_join NL (source_lines e) = rendered_entry e @ NL"
  by (cases e) (simp add: rendered_entry_def sanitize_heading_def del: py_Cons py_Nil)

lemma source_lines_ne: "source_lines e \<noteq> []"
  by (cases e) simp

lemma sources_join:
  "es \<noteq> [] \<Longrightarrow>
     str_join NL (concat (map source_lines es)) =
       str_join (NL @ NL) (map rendered_entry es) @ NL"
proof (induction es)
  case Nil
  then show ?case by simp
next
  case (Cons e es)
  show ?case
  proof (cases "es = []")
    case True
    then show ?thesis by (simp add: source_lines_join)
  next
    case False
    then have ne: "concat (map source_lines es) \<noteq> []"
      by (cases es) (simp_all add: source_lines_ne)
    have "str_join NL (concat (map source_lines (e # es))) =
          str_join NL (source_lines e) @ NL @ str_join NL (concat (map source_lines es))"
      using ne by (simp add: str_join_append source_lines_ne)
    also have "\<dots> =
          rendered_entry e @ NL @ NL @ str_join (NL @ NL) (map rendered_entry es) @ NL"
      using Cons.IH [OF False] by (simp add: source_lines_join)
    also have "\<dots> = str_join (NL @ NL) (map rendered_entry (e # es)) @ NL"
      using False by (simp add: str_join_Cons)
    finally show ?thesis .
  qed
qed

lemma brief_lines_join: "str_join NL (brief_lines r) = rendered_brief r @ NL"
  by (simp add: brief_lines_def rendered_brief_def del: py_Cons py_Nil)

lemma brief_lines_ne: "brief_lines r \<noteq> []"
  by (simp add: brief_lines_def)

lemma rendered_entry_last:
  "rendered_entry e \<noteq> [] \<and> \<not> isspace (last (rendered_entry e))"
  by (simp add: rendered_entry_def isspace_def)

lemma rendered_sources_last:
  "rendered_sources s \<noteq> [] \<and> \<not> isspace (last (rendered_sources s))"
proof (cases "s = []")
  case True
  then show ?thesis
    by (simp add: rendered_sources_def isspace_def)
next
  case False
  then have l: "last (map rendered_entry s) = rendered_entry (last s)"
    by (simp add: last_map)
  have "map rendered_entry s \<noteq> []"
    using False by simp
  moreover have "last (map rendered_entry s) \<noteq> []"
    unfolding l using rendered_entry_last by blast
  ultimately have "str_join (NL @ NL) (map rendered_entry s) \<noteq> [] \<and>
      last (str_join (NL @ NL) (map rendered_entry s)) = last (rendered_entry (last s))"
    using last_str_join [of "map rendered_entry s" "NL @ NL"] l by simp
  then show ?thesis
    using False rendered_entry_last [of "last s"] by (simp add: rendered_sources_def)
qed

lemma str_strip_trailing_NL:
  "a \<noteq> [] \<Longrightarrow> \<not> isspace (hd a) \<Longrightarrow> \<not> isspace (last a) \<Longrightarrow> str_strip (a @ NL) = a"
  by (simp add: str_strip_def dropWhile_hd_id hd_rev isspace_def dropWhile_append3)

lemma bundle_lines_join:
  "str_join NL
     ([py ''# Website Request Bundle'', py ''Generated: '' @ ts, []] @
      brief_lines r @ [py ''## Source Material''] @
      (if s = [] then
         [py (''_No supported source files discovered in the '' @ [CHR 0x60] @
              ''source/'' @ [CHR 0x60] @ '' directory._'')]
       else concat (map source_lines s))) =
   py ''# Website Request Bundle'' @ NL @ py ''Generated: '' @ ts @ NL @ NL @
   rendered_brief r @ NL @ NL @ py ''## Source Material'' @ NL @
   rendered_sources s @ (if s = [] then [] else NL)"
proof -
  let ?src = "if s = [] then
         [py (''_No supported source files discovered in the '' @ [CHR 0x60] @
              ''source/'' @ [CHR 0x60] @ '' directory._'')]
       else concat (map source_lines s)"
  have src_ne: "?src \<noteq> []"
    by (cases s) (simp_all add: source_lines_ne)
  have src: "str_join NL ?src = rendered_sources s @ (if s = [] then [] else NL)"
    by (simp add: rendered_sources_def sources_join del: py_Cons py_Nil)
  have tail: "str_join NL (brief_lines r @ [py ''## Source Material''] @ ?src) =
        rendered_brief r @ NL @ NL @ py ''## Source Material'' @ NL @ str_join NL ?src"
    using src_ne
    by (simp add: str_join_append brief_lines_ne brief_lines_join str_join_Cons
          del: py_Cons py_Nil)
  have ne: "brief_lines r @ [py ''## Source Material''] @ ?src \<noteq> []"
    by simp
  have "str_join NL ([py ''# Website Request Bundle'', py ''Generated: '' @ ts, []] @
          (brief_lines r @ [py ''## Source Material''] @ ?src)) =
        py ''# Website Request Bundle'' @ NL @ py ''Generated: '' @ ts @ NL @ NL @
        str_join NL (brief_lines r @ [py ''## Source Material''] @ ?src)"
    using ne by (simp add: str_join_Cons del: py_Cons py_Nil)
  then show ?thesis
    unfolding tail src by (simp del: py_Cons py_Nil)
qed

lemma build_bundle_eq:
  "build_bundle now r s =
     py ''# Website Request Bundle'' @ NL @ py ''Generated: '' @ isoformat_seconds now @
     bundle_after_timestamp r s"
proof -
  let ?X = "py ''# Website Request Bundle'' @ NL @ py ''Generated: '' @ isoformat_seconds now @
     NL @ NL @ rendered_brief r @ NL @ NL @ py ''## Source Material'' @ NL @ rendered_sources s"
  have X: "?X \<noteq> []" "\<not> isspace (hd ?X)" "\<not> isspace (last ?X)"
    using rendered_sources_last [of s] by (simp_all add: isspace_def)
  have "build_bundle now r s = str_strip (?X @ (if s = [] then [] else NL)) @ NL"
    unfolding build_bundle_def Let_def bundle_lines_join by (simp del: py_Cons py_Nil)
  also have "str_strip (?X @ (if s = [] then [] else NL)) = ?X"
    using str_strip_trailing_NL [OF X] str_strip_id [OF X] by (cases "s = []") simp_all
  finally show ?thesis
    by (simp add: bundle_after_timestamp_def del: py_Cons py_Nil)
qed

lemma sanitize_heading_no_backtick:
  "96 \<notin> set (sanitize_heading name) \<and> length (sanitize_heading name) = length name"
  by (auto simp: sanitize_heading_def)

lemma example_isoformat:
  "isoformat_seconds example_now = py ''2026-01-05T03:04:09+00:00''"
  by (simp add: isoformat_seconds_def example_now_def zero_pad_def str_nat.simps)

subsection \<open>C7: the Source Material section\<close>

text \<open>
  C7. The bundle is the title line, the timestamp line, a blank line, the brief section,
  a blank line, the line \<^verbatim>\<open>## Source Material\<close> and then, when there are gathered
  entries, the entries in order, separated by blank lines, and a final newline. Each
  entry is rendered as \<open>rendered_entry\<close> says: the heading \<^verbatim>\<open>### \<close> followed by the file's
  name with every backtick (code point 96) replaced by U+2019 (code point 8217), a
  newline, and then the text between a \<^verbatim>\<open>text\<close> fence and a closing fence when the text
  is not empty, or the notice that no text was found when it is empty. With no entries
  the section holds the notice that no source files were found.
\<close>

theorem build_bundle_source_material:
  "build_bundle now request_text sources =
     py ''# Website Request Bundle'' @ NL @ py ''Generated: '' @ isoformat_seconds now @
     NL @ NL @ rendered_brief request_text @ NL @ NL @ py ''## Source Material'' @ NL @
     (if sources = [] then
        py (''_No supported source files discovered in the '' @ [CHR 0x60] @
            ''source/'' @ [CHR 0x60] @ '' directory._'')
      else str_join (NL @ NL) (map rendered_entry sources)) @ NL \<and>
   (\<forall>file_path body. rendered_entry (file_path, body) =
      py ''### '' @ sanitize_heading (Path_name file_path) @ NL @
      (if body \<noteq> [] then py (fence @ ''text'') @ NL @ body @ NL @ py fence
       else py ''_No extractable text content found._'')) \<and>
   (\<forall>name. 96 \<notin> set (sanitize_heading name) \<and>
      sanitize_heading name = map (\<lambda>c. if c = 96 then 8217 else c) name)"
  unfolding build_bundle_eq
  by (auto simp: bundle_after_timestamp_def rendered_sources_def rendered_entry_def
        sanitize_heading_def simp del: py_Cons py_Nil)

theorem build_bundle_source_material_witness:
  "build_bundle example_now []
     [([py ''source'', py ''a'' @ [96] @ py ''b.txt''], py ''hello''),
      ([py ''source'', py ''empty.md''], [])] =
   py ''# Website Request Bundle'' @ NL @
   py ''Generated: 2026-01-05T03:04:09+00:00'' @ NL @ NL @
   py ''## Site Brief'' @ NL @
   py (''_No site brief found. Fill out '' @ [CHR 0x60] @ ''request/site-brief.yaml'' @
       [CHR 0x60] @ '' to capture your requirements._'') @ NL @ NL @
   py ''## Source Material'' @ NL @
   py ''### a'' @ [8217] @ py ''b.txt'' @ NL @
   py (fence @ ''text'') @ NL @ py ''hello'' @ NL @ py fence @ NL @ NL @
   py ''### empty.md'' @ NL @ py ''_No extractable text content found._'' @ NL"
  using build_bundle_source_material
    [of example_now "[]"
        "[([py ''source'', py ''a'' @ [96] @ py ''b.txt''], py ''hello''),
          ([py ''source'', py ''empty.md''], [])]"]
  by (simp add: example_isoformat rendered_brief_def rendered_entry_def Path_name_def
        sanitize_heading_def)

subsection \<open>C2: the bundle depends on the clock in its timestamp line only\<close>

lemma split_nl_ne: "split_nl s \<noteq> []"
  by (induction s) (auto split: list.splits)

lemma split_nl_line: "10 \<notin> set a \<Longrightarrow> split_nl (a @ NL @ b) = a # split_nl b"
  by (induction a) (auto split: list.splits simp: split_nl_ne)

lemma str_nat_digits: "c \<in> set (str_nat n) \<Longrightarrow> 48 \<le> c \<and> c \<le> 57"
proof (induction n rule: str_nat.induct)
  case (1 n)
  show ?case
  proof (cases "n < 10")
    case True
    with "1.prems" show ?thesis
      by (simp add: str_nat.simps [of n])
  next
    case False
    from "1.prems" False have "c \<in> set (str_nat (n div 10)) \<or> c = 48 + n mod 10"
      by (auto simp: str_nat.simps [of n])
    then show ?thesis
    proof
      assume "c \<in> set (str_nat (n div 10))"
      with "1.IH" False show ?thesis by simp
    next
      assume "c = 48 + n mod 10"
      moreover have "n mod 10 < 10" by simp
      ultimately show ?thesis by linarith
    qed
  qed
qed

lemma zero_pad_digits: "c \<in> set (zero_pad k n) \<Longrightarrow> 48 \<le> c \<and> c \<le> 57"
  using str_nat_digits [of c n] by (auto simp: zero_pad_def)

lemma isoformat_no_newline: "10 \<notin> set (isoformat_seconds t)"
proof
  assume "10 \<in> set (isoformat_seconds t)"
  then have "\<exists>k n. 10 \<in> set (zero_pad k n)"
    unfolding isoformat_seconds_def by auto
  then show False
    using zero_pad_digits by fastforce
qed

text \<open>
  C2. The clock is the only input of \<open>build_bundle\<close> besides the brief text and the
  list of sources, and it reaches the output through the rendered timestamp only. The
  lines of the bundle are the title, the line \<^verbatim>\<open>Generated: \<close> with the timestamp, and
  then the same lines as in the bundle of any other call with the same brief and
  sources: two calls that differ in the clock differ in the second line only. Two calls
  whose timestamps render alike (the same instant to the second) give the same text.
\<close>

theorem build_bundle_timestamp_line:
  "split_nl (build_bundle now request_text sources) =
     py ''# Website Request Bundle'' #
     (py ''Generated: '' @ isoformat_seconds now) #
     drop 2 (split_nl (build_bundle now' request_text sources)) \<and>
   (isoformat_seconds now = isoformat_seconds now' \<longrightarrow>
      build_bundle now request_text sources = build_bundle now' request_text sources)"
proof -
  obtain rest where rest: "bundle_after_timestamp request_text sources = NL @ rest"
    by (simp add: bundle_after_timestamp_def)
  have lines: "split_nl (build_bundle t request_text sources) =
        py ''# Website Request Bundle'' #
        (py ''Generated: '' @ isoformat_seconds t) # split_nl rest" for t
  proof -
    have a: "10 \<notin> set (py ''# Website Request Bundle'')"
      by simp
    have b: "10 \<notin> set (py ''Generated: '' @ isoformat_seconds t)"
      using isoformat_no_newline [of t] by simp
    have "build_bundle t request_text sources =
          py ''# Website Request Bundle'' @ NL @
          ((py ''Generated: '' @ isoformat_seconds t) @ NL @ rest)"
      unfolding build_bundle_eq rest by (simp del: py_Cons py_Nil)
    then show ?thesis
      by (simp only: split_nl_line [OF a] split_nl_line [OF b])
  qed
  show ?thesis
    unfolding lines by (simp add: build_bundle_eq del: py_Cons py_Nil)
qed

theorem build_bundle_timestamp_line_witness:
  "split_nl (build_bundle example_now (py ''goal: test'') []) =
     py ''# Website Request Bundle'' #
     py ''Generated: 2026-01-05T03:04:09+00:00'' #
     drop 2 (split_nl (build_bundle (example_now\<lparr>year := 2027\<rparr>) (py ''goal: test'') [])) \<and>
   build_bundle example_now (py ''goal: test'') [] =
     build_bundle (example_now\<lparr>microsecond := 123456\<rparr>) (py ''goal: test'') []"
proof -
  have same: "isoformat_seconds example_now =
      isoformat_seconds (example_now\<lparr>microsecond := 123456\<rparr>)"
    by (simp add: isoformat_seconds_def)
  have a: "split_nl (build_bundle example_now (py ''goal: test'') []) =
     py ''# Website Request Bundle'' #
     py ''Generated: 2026-01-05T03:04:09+00:00'' #
     drop 2 (split_nl (build_bundle (example_now\<lparr>year := 2027\<rparr>) (py ''goal: test'') []))"
    using build_bundle_timestamp_line
        [of example_now "py ''goal: test''" "[]" "example_now\<lparr>year := 2027\<rparr>"]
    by (simp add: example_isoformat)
  have b: "build_bundle example_now (py ''goal: test'') [] =
     build_bundle (example_now\<lparr>microsecond := 123456\<rparr>) (py ''goal: test'') []"
    using build_bundle_timestamp_line
        [of example_now "py ''goal: test''" "[]" "example_now\<lparr>microsecond := 123456\<rparr>"]
      same
    by blast
  from a b show ?thesis
    by blast
qed

subsection \<open>The UTF-8 decoder\<close>

lemma emit_Inr: "emit c r = Inr cs \<longleftrightarrow> (\<exists>cs'. r = Inr cs' \<and> cs = c # cs')"
  by (cases r) auto

lemma emit_Inl: "emit c r = Inl e \<longleftrightarrow> r = Inl e"
  by (cases r) auto

lemma isl_emit [simp]: "isl (emit c r) = isl r"
  by (cases r) auto

lemma lead3_second_ok: "lead3 a b \<Longrightarrow> 224 \<le> a \<and> a < 240 \<and> second_ok a b"
  unfolding second_ok_def lead3_def in_range_def is_cont_def by arith

lemma lead4_second_ok: "lead4 a b \<Longrightarrow> 240 \<le> a \<and> a < 245 \<and> second_ok a b"
  unfolding second_ok_def lead4_def in_range_def is_cont_def by arith

lemma second_ok_lead3: "224 \<le> a \<Longrightarrow> a < 240 \<Longrightarrow> second_ok a b \<Longrightarrow> lead3 a b"
  unfolding second_ok_def lead3_def in_range_def is_cont_def by arith

lemma second_ok_lead4: "240 \<le> a \<Longrightarrow> a < 245 \<Longrightarrow> second_ok a b \<Longrightarrow> lead4 a b"
  unfolding second_ok_def lead4_def in_range_def is_cont_def by arith

lemma in_range_cont: "in_range 128 191 b \<longleftrightarrow> is_cont b"
  unfolding in_range_def is_cont_def by arith

text \<open>Strict decoding succeeds exactly on the well-formed byte sequences.\<close>

lemma valid_decodes: "valid_utf8 bs \<Longrightarrow> \<exists>cs. utf8_decode Strict bs = Inr cs"
proof (induction rule: valid_utf8.induct)
  case empty
  show ?case by simp
next
  case (one a bs)
  then show ?case by (auto simp: in_range_def)
next
  case (two a b bs)
  then show ?case by (auto simp: in_range_def is_cont_def)
next
  case (three a b c bs)
  from three.IH obtain cs where cs: "utf8_decode Strict bs = Inr cs" ..
  from three.hyps(1) have a: "224 \<le> a" "a < 240" "second_ok a b"
    by (simp_all add: lead3_second_ok)
  from three.hyps(2) have c: "is_cont c"
    by (simp add: in_range_cont)
  show ?case using a c cs by simp
next
  case (four a b c d bs)
  from four.IH obtain cs where cs: "utf8_decode Strict bs = Inr cs" ..
  from four.hyps(1) have a: "240 \<le> a" "a < 245" "second_ok a b"
    by (simp_all add: lead4_second_ok)
  from four.hyps(2,3) have c: "is_cont c" "is_cont d"
    by (simp_all add: in_range_cont)
  show ?case using a c cs by simp
qed

lemma decodes_valid: "utf8_decode Strict bs = Inr cs \<Longrightarrow> valid_utf8 bs"
proof (induction bs arbitrary: cs rule: length_induct)
  case (1 xs)
  note IH = "1.IH" [rule_format]
  show ?case
  proof (cases xs)
    case Nil
    then show ?thesis by (simp add: valid_utf8.empty)
  next
    case (Cons b0 bs)
    consider (a) "b0 < 128" | (b) "194 \<le> b0" "b0 < 224" | (c) "224 \<le> b0" "b0 < 240"
      | (d) "240 \<le> b0" "b0 < 245" | (e) "128 \<le> b0" "b0 < 194" | (f) "245 \<le> b0"
      by linarith
    then show ?thesis
    proof cases
      case a
      with "1.prems" Cons obtain cs' where "utf8_decode Strict bs = Inr cs'"
        by (auto simp: emit_Inr)
      then have "valid_utf8 bs"
        using IH [of bs] Cons by simp
      with a Cons show ?thesis
        by (simp add: valid_utf8.one in_range_def)
    next
      case b
      with "1.prems" Cons obtain b1 bs1 cs' where
        s: "bs = b1 # bs1" "is_cont b1" "utf8_decode Strict bs1 = Inr cs'"
        by (auto simp: emit_Inr split: list.splits if_splits)
      then have "valid_utf8 bs1"
        using IH [of bs1] Cons by simp
      with b s Cons show ?thesis
        by (simp add: valid_utf8.two in_range_def is_cont_def)
    next
      case c
      with "1.prems" Cons obtain b1 b2 bs2 cs' where
        s: "bs = b1 # b2 # bs2" "second_ok b0 b1" "is_cont b2"
           "utf8_decode Strict bs2 = Inr cs'"
        by (auto simp: emit_Inr split: list.splits if_splits)
      then have "valid_utf8 bs2"
        using IH [of bs2] Cons by simp
      moreover have "lead3 b0 b1"
        using c s by (simp add: second_ok_lead3)
      ultimately show ?thesis
        using s Cons by (simp add: valid_utf8.three in_range_cont)
    next
      case d
      with "1.prems" Cons obtain b1 b2 b3 bs3 cs' where
        s: "bs = b1 # b2 # b3 # bs3" "second_ok b0 b1" "is_cont b2" "is_cont b3"
           "utf8_decode Strict bs3 = Inr cs'"
        by (auto simp: emit_Inr split: list.splits if_splits)
      then have "valid_utf8 bs3"
        using IH [of bs3] Cons by simp
      moreover have "lead4 b0 b1"
        using d s by (simp add: second_ok_lead4)
      ultimately show ?thesis
        using s Cons by (simp add: valid_utf8.four in_range_cont)
    next
      case e
      with "1.prems" Cons show ?thesis by simp
    next
      case f
      with "1.prems" Cons show ?thesis by simp
    qed
  qed
qed

lemma utf8_strict_iff: "(\<exists>cs. utf8_decode Strict bs = Inr cs) \<longleftrightarrow> valid_utf8 bs"
  using valid_decodes decodes_valid by blast

text \<open>Lenient decoding always returns, and agrees with strict decoding where that succeeds.\<close>

lemma utf8_ignore_total: "\<not> isl (utf8_decode Ignore bs)"
proof (induction bs rule: length_induct)
  case (1 xs)
  have IH: "\<not> isl (utf8_decode Ignore ys)" if "length ys < length xs" for ys
    using "1.IH" that by blast
  show ?case
  proof (cases xs)
    case Nil
    then show ?thesis by simp
  next
    case (Cons b0 bs)
    have "\<not> isl (utf8_decode Ignore (b0 # bs))"
      apply (subst utf8_decode.simps(2))
      apply (simp del: utf8_decode.simps add: IH Cons split: list.splits)
      done
    then show ?thesis unfolding Cons .
  qed
qed

lemma utf8_strict_error:
  "utf8_decode Strict bs = Inl e \<Longrightarrow>
     exn_class e = ''UnicodeDecodeError'' \<and> exn_cause e = None"
proof (induction bs arbitrary: e rule: length_induct)
  case (1 xs)
  have IH: "exn_class e' = ''UnicodeDecodeError'' \<and> exn_cause e' = None"
    if "length ys < length xs" "utf8_decode Strict ys = Inl e'" for ys e'
    using "1.IH" that by blast
  show ?case
  proof (cases xs)
    case Nil
    with "1.prems" show ?thesis by simp
  next
    case (Cons b0 bs)
    from "1.prems" have p: "utf8_decode Strict (b0 # bs) = Inl e"
      by (simp only: Cons)
    show ?thesis
      using p
      apply (subst (asm) utf8_decode.simps(2))
      apply (auto simp del: utf8_decode.simps simp add: emit_Inl Cons
               split: list.splits if_splits dest!: IH [rotated])
      done
  qed
qed

lemma utf8_ignore_valid:
  "utf8_decode Strict bs = Inr cs \<Longrightarrow> utf8_decode Ignore bs = Inr cs"
proof (induction bs arbitrary: cs rule: length_induct)
  case (1 xs)
  have IH: "utf8_decode Ignore ys = Inr cs'"
    if "length ys < length xs" "utf8_decode Strict ys = Inr cs'" for ys cs'
    using "1.IH" that by blast
  show ?case
  proof (cases xs)
    case Nil
    with "1.prems" show ?thesis by simp
  next
    case (Cons b0 bs)
    from "1.prems" have p: "utf8_decode Strict (b0 # bs) = Inr cs"
      by (simp only: Cons)
    have "utf8_decode Ignore (b0 # bs) = Inr cs"
      using p
      apply (subst (asm) utf8_decode.simps(2))
      apply (subst utf8_decode.simps(2))
      apply (auto simp del: utf8_decode.simps simp add: emit_Inr Cons IH
               split: list.splits if_splits)
      done
    then show ?thesis unfolding Cons .
  qed
qed

text \<open>Lenient decoding is strict decoding of the input with some bytes left out.\<close>

lemma stepI_end: "utf8_decode Ignore (b0 # bs) = Inr [] \<Longrightarrow> ignore_steps b0 bs"
  by (simp add: ignore_steps_def)

lemma stepI_skip:
  "suffix ys bs \<Longrightarrow> utf8_decode Ignore (b0 # bs) = utf8_decode Ignore ys \<Longrightarrow> ignore_steps b0 bs"
  unfolding ignore_steps_def by blast

lemma stepI_emit:
  "bs = pre @ ys \<Longrightarrow> utf8_decode Ignore (b0 # bs) = emit c (utf8_decode Ignore ys) \<Longrightarrow>
   (\<And>zs. utf8_decode Strict (b0 # pre @ zs) = emit c (utf8_decode Strict zs)) \<Longrightarrow>
   ignore_steps b0 bs"
  unfolding ignore_steps_def by blast

lemma dec2:
  "194 \<le> b0 \<Longrightarrow> b0 < 224 \<Longrightarrow> is_cont b1 \<Longrightarrow>
     utf8_decode m (b0 # b1 # zs) = emit ((b0 - 192) * 64 + (b1 - 128)) (utf8_decode m zs)"
  by (subst utf8_decode.simps(2)) (simp del: utf8_decode.simps)

lemma dec3:
  "224 \<le> b0 \<Longrightarrow> b0 < 240 \<Longrightarrow> second_ok b0 b1 \<Longrightarrow> is_cont b2 \<Longrightarrow>
     utf8_decode m (b0 # b1 # b2 # zs) =
       emit ((b0 - 224) * 4096 + (b1 - 128) * 64 + (b2 - 128)) (utf8_decode m zs)"
  by (subst utf8_decode.simps(2)) (simp del: utf8_decode.simps)

lemma dec4:
  "240 \<le> b0 \<Longrightarrow> b0 < 245 \<Longrightarrow> second_ok b0 b1 \<Longrightarrow> is_cont b2 \<Longrightarrow> is_cont b3 \<Longrightarrow>
     utf8_decode m (b0 # b1 # b2 # b3 # zs) =
       emit ((b0 - 240) * 262144 + (b1 - 128) * 4096 + (b2 - 128) * 64 + (b3 - 128))
         (utf8_decode m zs)"
  by (subst utf8_decode.simps(2)) (simp del: utf8_decode.simps)

lemma dec1: "b0 < 128 \<Longrightarrow> utf8_decode m (b0 # zs) = emit b0 (utf8_decode m zs)"
  by (subst utf8_decode.simps(2)) (simp del: utf8_decode.simps)

lemma skip_start:
  "128 \<le> b0 \<Longrightarrow> b0 < 194 \<or> 245 \<le> b0 \<Longrightarrow>
     utf8_decode Ignore (b0 # bs) = utf8_decode Ignore bs"
  by (subst utf8_decode.simps(2)) (auto simp del: utf8_decode.simps)

lemma skip2:
  "194 \<le> b0 \<Longrightarrow> b0 < 224 \<Longrightarrow> \<not> is_cont b1 \<Longrightarrow>
     utf8_decode Ignore (b0 # b1 # bs) = utf8_decode Ignore (b1 # bs)"
  by (subst utf8_decode.simps(2)) (simp del: utf8_decode.simps)

lemma skip_second:
  "224 \<le> b0 \<Longrightarrow> b0 < 245 \<Longrightarrow> \<not> second_ok b0 b1 \<Longrightarrow>
     utf8_decode Ignore (b0 # b1 # bs) = utf8_decode Ignore (b1 # bs)"
  by (subst utf8_decode.simps(2)) (simp del: utf8_decode.simps)

lemma skip_third:
  "224 \<le> b0 \<Longrightarrow> b0 < 245 \<Longrightarrow> second_ok b0 b1 \<Longrightarrow> \<not> is_cont b2 \<Longrightarrow>
     utf8_decode Ignore (b0 # b1 # b2 # bs) = utf8_decode Ignore (b2 # bs)"
  by (subst utf8_decode.simps(2)) (simp del: utf8_decode.simps)

lemma skip_fourth:
  "240 \<le> b0 \<Longrightarrow> b0 < 245 \<Longrightarrow> second_ok b0 b1 \<Longrightarrow> is_cont b2 \<Longrightarrow> \<not> is_cont b3 \<Longrightarrow>
     utf8_decode Ignore (b0 # b1 # b2 # b3 # bs) = utf8_decode Ignore (b3 # bs)"
  by (subst utf8_decode.simps(2)) (simp del: utf8_decode.simps)

lemma end1: "194 \<le> b0 \<Longrightarrow> b0 < 245 \<Longrightarrow> utf8_decode Ignore [b0] = Inr []"
  by (subst utf8_decode.simps(2)) (simp del: utf8_decode.simps)

lemma end2:
  "224 \<le> b0 \<Longrightarrow> b0 < 245 \<Longrightarrow> second_ok b0 b1 \<Longrightarrow> utf8_decode Ignore [b0, b1] = Inr []"
  by (subst utf8_decode.simps(2)) (simp del: utf8_decode.simps)

lemma end3:
  "240 \<le> b0 \<Longrightarrow> b0 < 245 \<Longrightarrow> second_ok b0 b1 \<Longrightarrow> is_cont b2 \<Longrightarrow>
     utf8_decode Ignore [b0, b1, b2] = Inr []"
  by (subst utf8_decode.simps(2)) (simp del: utf8_decode.simps)

lemma ignore_steps_all: "ignore_steps b0 bs"
proof -
  consider (a) "b0 < 128" | (b) "194 \<le> b0" "b0 < 224" | (c) "224 \<le> b0" "b0 < 240"
    | (d) "240 \<le> b0" "b0 < 245" | (e) "128 \<le> b0" "b0 < 194 \<or> 245 \<le> b0"
    by linarith
  then show ?thesis
  proof cases
    case a
    show ?thesis
      by (rule stepI_emit [of bs "[]" bs b0 b0]) (simp_all add: dec1 [OF a] del: utf8_decode.simps)
  next
    case e
    show ?thesis
      by (rule stepI_skip [of bs]) (simp_all add: skip_start [OF e] del: utf8_decode.simps)
  next
    case b
    show ?thesis
    proof (cases bs)
      case Nil
      show ?thesis unfolding Nil using b by (intro stepI_end end1) simp_all
    next
      case (Cons b1 bs1)
      show ?thesis
      proof (cases "is_cont b1")
        case True
        show ?thesis
          unfolding Cons
          by (rule stepI_emit [of _ "[b1]" bs1])
             (simp_all add: dec2 [OF b True] del: utf8_decode.simps)
      next
        case False
        show ?thesis
          unfolding Cons
          by (rule stepI_skip [of "b1 # bs1"])
             (simp_all add: skip2 [OF b False] del: utf8_decode.simps)
      qed
    qed
  next
    case c
    then have c': "224 \<le> b0" "b0 < 245" by simp_all
    show ?thesis
    proof (cases bs)
      case Nil
      show ?thesis unfolding Nil using c by (intro stepI_end end1) simp_all
    next
      case (Cons b1 bs1)
      show ?thesis
      proof (cases "second_ok b0 b1")
        case False
        show ?thesis
          unfolding Cons
          by (rule stepI_skip [of "b1 # bs1"])
             (simp_all add: skip_second [OF c' False] del: utf8_decode.simps)
      next
        case True
        show ?thesis
        proof (cases bs1)
          case Nil
          show ?thesis unfolding Cons Nil by (intro stepI_end end2 c' True)
        next
          case (Cons b2 bs2)
          note bs1 = this
          show ?thesis
          proof (cases "is_cont b2")
            case ok: True
            show ?thesis
              unfolding \<open>bs = b1 # bs1\<close> bs1
              by (rule stepI_emit [of _ "[b1, b2]" bs2])
                 (simp_all add: dec3 [OF c True ok] del: utf8_decode.simps)
          next
            case bad: False
            show ?thesis
              unfolding \<open>bs = b1 # bs1\<close> bs1
              by (rule stepI_skip [of "b2 # bs2"])
                 (simp_all add: skip_third [OF c' True bad] suffix_Cons del: utf8_decode.simps)
          qed
        qed
      qed
    qed
  next
    case d
    then have d': "224 \<le> b0" "b0 < 245" by simp_all
    show ?thesis
    proof (cases bs)
      case Nil
      show ?thesis unfolding Nil using d' by (intro stepI_end end1) simp_all
    next
      case (Cons b1 bs1)
      show ?thesis
      proof (cases "second_ok b0 b1")
        case False
        show ?thesis
          unfolding Cons
          by (rule stepI_skip [of "b1 # bs1"])
             (simp_all add: skip_second [OF d' False] del: utf8_decode.simps)
      next
        case True
        show ?thesis
        proof (cases bs1)
          case Nil
          show ?thesis unfolding Cons Nil by (intro stepI_end end2 d' True)
        next
          case (Cons b2 bs2)
          note bs1 = this
          show ?thesis
          proof (cases "is_cont b2")
            case bad: False
            show ?thesis
              unfolding \<open>bs = b1 # bs1\<close> bs1
              by (rule stepI_skip [of "b2 # bs2"])
                 (simp_all add: skip_third [OF d' True bad] suffix_Cons del: utf8_decode.simps)
          next
            case ok: True
            show ?thesis
            proof (cases bs2)
              case Nil
              show ?thesis
                unfolding \<open>bs = b1 # bs1\<close> bs1 Nil by (intro stepI_end end3 d True ok)
            next
              case (Cons b3 bs3)
              note bs2 = this
              show ?thesis
              proof (cases "is_cont b3")
                case ok3: True
                show ?thesis
                  unfolding \<open>bs = b1 # bs1\<close> bs1 bs2
                  by (rule stepI_emit [of _ "[b1, b2, b3]" bs3])
                     (simp_all add: dec4 [OF d True ok ok3] del: utf8_decode.simps)
              next
                case bad3: False
                show ?thesis
                  unfolding \<open>bs = b1 # bs1\<close> bs1 bs2
                  by (rule stepI_skip [of "b3 # bs3"])
                     (simp_all add: skip_fourth [OF d True ok bad3] suffix_Cons
                        del: utf8_decode.simps)
              qed
            qed
          qed
        qed
      qed
    qed
  qed
qed

lemma ignore_drops_bytes:
  "\<exists>kept. subseq kept bs \<and> utf8_decode Strict kept = utf8_decode Ignore bs"
proof (induction bs rule: length_induct)
  case (1 xs)
  have IH: "\<exists>kept. subseq kept ys \<and> utf8_decode Strict kept = utf8_decode Ignore ys"
    if "length ys < length xs" for ys
    using "1.IH" that by blast
  show ?case
  proof (cases xs)
    case Nil
    have "subseq [] xs \<and> utf8_decode Strict [] = utf8_decode Ignore xs"
      unfolding Nil by simp
    then show ?thesis ..
  next
    case (Cons b0 bs)
    from ignore_steps_all [of b0 bs]
    consider (stop) "utf8_decode Ignore (b0 # bs) = Inr []"
      | (skip) ys where "suffix ys bs" "utf8_decode Ignore (b0 # bs) = utf8_decode Ignore ys"
      | (emit) pre ys c where "bs = pre @ ys"
          "utf8_decode Ignore (b0 # bs) = emit c (utf8_decode Ignore ys)"
          "\<And>zs. utf8_decode Strict (b0 # pre @ zs) = emit c (utf8_decode Strict zs)"
      unfolding ignore_steps_def by blast
    then show ?thesis
    proof cases
      case stop
      then have "subseq [] xs \<and> utf8_decode Strict [] = utf8_decode Ignore xs"
        unfolding Cons by simp
      then show ?thesis ..
    next
      case skip
      from skip(1) have len: "length ys < length xs"
        unfolding Cons by (auto simp: suffix_def)
      from IH [OF len] obtain kept where k: "subseq kept ys"
        "utf8_decode Strict kept = utf8_decode Ignore ys" by blast
      from skip(1) have "subseq ys (b0 # bs)"
        by (meson suffix_imp_subseq subseq_Cons' subseq_Cons2 subseq_order.trans list_emb_Cons)
      with k(1) have "subseq kept xs"
        unfolding Cons using subseq_order.trans by blast
      with k(2) skip(2) show ?thesis
        unfolding Cons by auto
    next
      case emit
      from emit(1) have len: "length ys < length xs"
        unfolding Cons by simp
      from IH [OF len] obtain kept where k: "subseq kept ys"
        "utf8_decode Strict kept = utf8_decode Ignore ys" by blast
      have "subseq (b0 # pre @ kept) xs"
        unfolding Cons emit(1) using k(1) by (simp add: subseq_append')
      moreover have "utf8_decode Strict (b0 # pre @ kept) = utf8_decode Ignore xs"
        unfolding Cons emit(2) emit(3) k(2) ..
      ultimately show ?thesis by blast
    qed
  qed
qed

subsection \<open>C8: the brief loader\<close>

lemma example_brief_bytes:
  "map_of (fs example_world) [py ''request'', py ''site-brief.yaml''] =
     Some (RegularFile (py ''goal: test'' @ [13, 10]))"
  "map_of (fs example_world) [py ''request'', py ''missing.yaml''] = None"
  "map_of (fs example_world) [py ''request'', py ''latin1.yaml''] =
     Some (RegularFile (py ''caf'' @ [233]))"
  "map_of (fs example_world) [py ''source''] = Some Directory"
  by (simp_all add: example_world_def example_fs_def)

lemma example_brief_decodes:
  "utf8_decode Strict (py ''goal: test'' @ [13, 10]) = Inr (py ''goal: test'' @ [13, 10])"
  by simp

lemma example_latin1_strict:
  "utf8_decode Strict (py ''caf'' @ [233]) =
     Inl (Exn ''UnicodeDecodeError'' (py ''unexpected end of data'') None)"
  by simp

text \<open>
  C8, as stated, fails. In \<open>example_world\<close> the path \<^verbatim>\<open>source\<close> exists and is a
  directory, and the path \<^verbatim>\<open>request/latin1.yaml\<close> exists and holds the bytes of
  \<^verbatim>\<open>caf\<close> followed by the byte 233, which is not UTF-8. On both \<open>load_site_brief\<close>
  raises (\<^verbatim>\<open>IsADirectoryError\<close>, \<^verbatim>\<open>UnicodeDecodeError\<close>) and returns no text, trimmed or
  otherwise.
\<close>

theorem load_site_brief_existing_path_counterexample:
  "Path_exists example_world [py ''source''] \<and>
   load_site_brief example_world [py ''source''] =
     Inl (Exn ''IsADirectoryError'' (py ''Is a directory'') None) \<and>
   isl (load_site_brief example_world [py ''source'']) \<and>
   Path_exists example_world [py ''request'', py ''latin1.yaml''] \<and>
   load_site_brief example_world [py ''request'', py ''latin1.yaml''] =
     Inl (Exn ''UnicodeDecodeError'' (py ''unexpected end of data'') None) \<and>
   isl (load_site_brief example_world [py ''request'', py ''latin1.yaml''])"
  using example_brief_bytes(3,4) example_latin1_strict
  by (simp add: load_site_brief_def Path_exists_def Path_read_text_def del: py_Cons py_Nil)

text \<open>
  C8, amended. When the path is absent, \<open>load_site_brief\<close> returns the empty string and
  does not raise. When the path exists and its content reads as text (a regular file
  whose bytes are well-formed UTF-8; the text is the decoded bytes with newlines
  translated, as text mode does), it returns that whole text trimmed of surrounding
  whitespace. When the path exists and the read raises, it raises the error of the read:
  \<^verbatim>\<open>IsADirectoryError\<close> for a directory, the error of the system for a file that cannot
  be opened, and \<^verbatim>\<open>UnicodeDecodeError\<close> for a regular file whose bytes are not
  well-formed UTF-8.
\<close>

theorem load_site_brief_contract:
  "(\<not> Path_exists w path \<longrightarrow> load_site_brief w path = Inr []) \<and>
   (Path_exists w path \<and> Path_read_text w Strict path = Inr content \<longrightarrow>
      load_site_brief w path = Inr (str_strip content)) \<and>
   (map_of (fs w) path = Some (RegularFile bytes) \<and> valid_utf8 bytes \<longrightarrow>
      (\<exists>cs. utf8_decode Strict bytes = Inr cs \<and>
            load_site_brief w path = Inr (str_strip (universal_newlines cs)))) \<and>
   (Path_exists w path \<and> Path_read_text w Strict path = Inl e \<longrightarrow>
      load_site_brief w path = Inl e) \<and>
   (map_of (fs w) path = Some Directory \<longrightarrow>
      load_site_brief w path = Inl (Exn ''IsADirectoryError'' (py ''Is a directory'') None)) \<and>
   (map_of (fs w) path = Some (UnreadableFile e) \<longrightarrow> load_site_brief w path = Inl e) \<and>
   (map_of (fs w) path = Some (RegularFile bytes) \<and> \<not> valid_utf8 bytes \<longrightarrow>
      (\<exists>e'. load_site_brief w path = Inl e' \<and> exn_class e' = ''UnicodeDecodeError''))"
proof -
  have good: "\<exists>cs. utf8_decode Strict bytes = Inr cs \<and>
            load_site_brief w path = Inr (str_strip (universal_newlines cs))"
    if "map_of (fs w) path = Some (RegularFile bytes)" "valid_utf8 bytes"
  proof -
    from that(2) obtain cs where "utf8_decode Strict bytes = Inr cs"
      using valid_decodes by blast
    with that(1) show ?thesis
      by (simp add: load_site_brief_def Path_exists_def Path_read_text_def)
  qed
  have bad: "\<exists>e'. load_site_brief w path = Inl e' \<and> exn_class e' = ''UnicodeDecodeError''"
    if "map_of (fs w) path = Some (RegularFile bytes)" "\<not> valid_utf8 bytes"
  proof -
    from that(2) obtain e' where e': "utf8_decode Strict bytes = Inl e'"
      using utf8_strict_iff [of bytes] by (cases "utf8_decode Strict bytes") auto
    then have "exn_class e' = ''UnicodeDecodeError''"
      using utf8_strict_error by blast
    moreover have "load_site_brief w path = Inl e'"
      using that(1) e' by (simp add: load_site_brief_def Path_exists_def Path_read_text_def)
    ultimately show ?thesis
      by blast
  qed
  have dir: "load_site_brief w path = Inl (Exn ''IsADirectoryError'' (py ''Is a directory'') None)"
    if "map_of (fs w) path = Some Directory"
    using that
    by (simp add: load_site_brief_def Path_exists_def Path_read_text_def del: py_Cons py_Nil)
  have unreadable: "load_site_brief w path = Inl e"
    if "map_of (fs w) path = Some (UnreadableFile e)"
    using that by (simp add: load_site_brief_def Path_exists_def Path_read_text_def)
  have rest: "(\<not> Path_exists w path \<longrightarrow> load_site_brief w path = Inr []) \<and>
      (Path_exists w path \<and> Path_read_text w Strict path = Inr content \<longrightarrow>
         load_site_brief w path = Inr (str_strip content)) \<and>
      (Path_exists w path \<and> Path_read_text w Strict path = Inl e \<longrightarrow>
         load_site_brief w path = Inl e)"
    by (simp add: load_site_brief_def)
  from good bad dir unreadable rest show ?thesis
    by blast
qed

theorem load_site_brief_contract_witness:
  "load_site_brief example_world [py ''request'', py ''missing.yaml''] = Inr [] \<and>
   load_site_brief example_world [py ''request'', py ''site-brief.yaml''] =
     Inr (py ''goal: test'') \<and>
   load_site_brief example_world [py ''source''] =
     Inl (Exn ''IsADirectoryError'' (py ''Is a directory'') None)"
proof -
  have c: "load_site_brief example_world [py ''source''] =
     Inl (Exn ''IsADirectoryError'' (py ''Is a directory'') None)"
    using load_site_brief_contract [of example_world "[py ''source'']"]
      example_brief_bytes(4)
    by blast
  have v: "valid_utf8 (py ''goal: test'' @ [13, 10])"
    using example_brief_decodes decodes_valid by blast
  have a: "load_site_brief example_world [py ''request'', py ''missing.yaml''] = Inr []"
    using load_site_brief_contract [of example_world "[py ''request'', py ''missing.yaml'']"]
      example_brief_bytes(2)
    by (simp add: Path_exists_def)
  have b: "load_site_brief example_world [py ''request'', py ''site-brief.yaml''] =
     Inr (py ''goal: test'')"
    using load_site_brief_contract
      [of example_world "[py ''request'', py ''site-brief.yaml'']" _
          "py ''goal: test'' @ [13, 10]"]
      example_brief_bytes(1) v example_brief_decodes
    by (auto simp: str_strip_def isspace_def)
  from a b c show ?thesis
    by blast
qed

subsection \<open>C9: the brief is decoded strictly, plain text leniently\<close>

text \<open>
  C9. For a brief that is a regular file whose bytes are not well-formed UTF-8,
  \<open>load_site_brief\<close> raises a \<^verbatim>\<open>UnicodeDecodeError\<close>; \<open>main\<close>, run on an existing
  source directory with that brief, ends with the same exception, since nothing between
  the two catches it. On the same file \<open>read_plain_text\<close> does not raise: it returns
  the trimmed text of a well-formed byte sequence that is the file's bytes with some
  bytes left out.
\<close>

theorem load_site_brief_strict_decoding:
  assumes "map_of (fs w) path = Some (RegularFile bytes)" and "\<not> valid_utf8 bytes"
  shows "(\<exists>e. load_site_brief w path = Inl e \<and> exn_class e = ''UnicodeDecodeError'' \<and>
              (Path_exists w (source_dir a) \<and> request_file a = path \<longrightarrow>
                 main w now a = Inl e)) \<and>
         (\<exists>kept cs. subseq kept bytes \<and> valid_utf8 kept \<and>
              utf8_decode Strict kept = Inr cs \<and>
              read_plain_text w path = Inr (str_strip (universal_newlines cs)))"
proof -
  from assms(2) obtain e where e: "utf8_decode Strict bytes = Inl e"
    using utf8_strict_iff [of bytes] by (cases "utf8_decode Strict bytes") auto
  then have cls: "exn_class e = ''UnicodeDecodeError''"
    using utf8_strict_error by blast
  have l: "load_site_brief w path = Inl e"
    using assms(1) e by (simp add: load_site_brief_def Path_exists_def Path_read_text_def)
  have m: "main w now a = Inl e" if "Path_exists w (source_dir a)" "request_file a = path"
    using that l by (simp add: main_def)
  obtain cs where cs: "utf8_decode Ignore bytes = Inr cs"
    using utf8_ignore_total [of bytes] by (cases "utf8_decode Ignore bytes") auto
  then have r: "read_plain_text w path = Inr (str_strip (universal_newlines cs))"
    using assms(1) by (simp add: read_plain_text_def Path_read_text_def)
  from ignore_drops_bytes [of bytes] cs obtain kept where
    k: "subseq kept bytes" "utf8_decode Strict kept = Inr cs"
    by auto
  from k(2) have "valid_utf8 kept"
    by (rule decodes_valid)
  with k r have "\<exists>kept cs. subseq kept bytes \<and> valid_utf8 kept \<and>
              utf8_decode Strict kept = Inr cs \<and>
              read_plain_text w path = Inr (str_strip (universal_newlines cs))"
    by blast
  with l cls m show ?thesis
    by blast
qed

lemma example_latin1_decodes:
  "utf8_decode Strict (py ''caf'' @ [233]) =
     Inl (Exn ''UnicodeDecodeError'' (py ''unexpected end of data'') None)"
  "utf8_decode Ignore (py ''caf'' @ [233]) = Inr (py ''caf'')"
  by simp_all

theorem load_site_brief_strict_decoding_witness:
  "load_site_brief example_world [py ''request'', py ''latin1.yaml''] =
     Inl (Exn ''UnicodeDecodeError'' (py ''unexpected end of data'') None) \<and>
   main example_world example_now example_args =
     Inl (Exn ''UnicodeDecodeError'' (py ''unexpected end of data'') None) \<and>
   read_plain_text example_world [py ''request'', py ''latin1.yaml''] = Inr (py ''caf'')"
proof -
  have nv: "\<not> valid_utf8 (py ''caf'' @ [233])"
    using example_latin1_decodes(1) utf8_strict_iff [of "py ''caf'' @ [233]"] by simp
  have l: "load_site_brief example_world [py ''request'', py ''latin1.yaml''] =
     Inl (Exn ''UnicodeDecodeError'' (py ''unexpected end of data'') None)"
    using example_brief_bytes(3) example_latin1_decodes(1)
    by (simp add: load_site_brief_def Path_exists_def Path_read_text_def del: py_Cons py_Nil)
  have r: "read_plain_text example_world [py ''request'', py ''latin1.yaml''] = Inr (py ''caf'')"
    using example_brief_bytes(3) example_latin1_decodes(2)
    by (simp add: read_plain_text_def Path_read_text_def str_strip_def isspace_def)
  have args: "Path_exists example_world (source_dir example_args)"
    "request_file example_args = [py ''request'', py ''latin1.yaml'']"
    using example_brief_bytes(4) by (simp_all add: example_args_def Path_exists_def)
  from load_site_brief_strict_decoding
    [OF example_brief_bytes(3) nv, of example_args example_now] l args
  have "main example_world example_now example_args =
     Inl (Exn ''UnicodeDecodeError'' (py ''unexpected end of data'') None)"
    by auto
  with l r show ?thesis
    by blast
qed

end
